theory Spec2Isabelle
  imports Complex_Main "HOL-Library.Log_Nat"
begin

section \<open>JavaScript values and the operators the server uses on them\<close>

text \<open>
  The records the server reads from the Realtime Database are untyped JSON trees. They
  are modelled as \<open>jsval\<close>: \<open>JObj\<close> carries the properties of an object in the
  order \<open>Object.entries\<close> lists them, \<open>JUndefined\<close> is what reading an absent
  property yields, and \<open>JNull\<close> is what a snapshot's \<open>val()\<close> yields for an absent
  node. A stored number is a finite double, carried as the rational it denotes; strings
  are byte strings. The collections the server reads are keyed
  by record ids, so a tree holds objects and primitives; JSON arrays are not modelled.
\<close>

datatype jsval =
    JUndefined
  | JNull
  | JBool bool
  | JNum rat
  | JStr string
  | JObj "(string \<times> jsval) list"

text \<open>What a \<open>catch (err)\<close> can receive: a Firebase Auth error (code, message), a
  database error (message), or the runtime's TypeError (message).\<close>

datatype error =
    AuthError string string
  | DatabaseError string
  | TypeError string

fun message :: "error \<Rightarrow> string" where
  "message (AuthError c m) = m"
| "message (DatabaseError m) = m"
| "message (TypeError m) = m"

fun code :: "error \<Rightarrow> string option" where
  "code (AuthError c m) = Some c"
| "code (DatabaseError m) = None"
| "code (TypeError m) = None"

definition bind_e :: "error + 'a \<Rightarrow> ('a \<Rightarrow> error + 'b) \<Rightarrow> error + 'b" where
  "bind_e x f = (case x of Inl e \<Rightarrow> Inl e | Inr v \<Rightarrow> f v)"

fun map_e :: "('a \<Rightarrow> error + 'b) \<Rightarrow> 'a list \<Rightarrow> error + 'b list" where
  "map_e f [] = Inr []"
| "map_e f (x # xs) = bind_e (f x) (\<lambda>y. bind_e (map_e f xs) (\<lambda>ys. Inr (y # ys)))"

fun truthy :: "jsval \<Rightarrow> bool" where
  "truthy JUndefined = False"
| "truthy JNull = False"
| "truthy (JBool b) = b"
| "truthy (JNum x) = (x \<noteq> 0)"
| "truthy (JStr s) = (s \<noteq> [])"
| "truthy (JObj kvs) = True"

text \<open>\<open>a || b\<close>\<close>

definition js_or :: "jsval \<Rightarrow> jsval \<Rightarrow> jsval" where
  "js_or a b = (if truthy a then a else b)"

text \<open>\<open>v.k\<close> for the property names this program reads (none of them is a property
  of a primitive's prototype): a TypeError on \<open>undefined\<close> and \<open>null\<close>, the stored
  value on an object, \<open>undefined\<close> otherwise.\<close>

fun get_prop :: "jsval \<Rightarrow> string \<Rightarrow> error + jsval" where
  "get_prop JUndefined k = Inl (TypeError ''Cannot read properties of undefined'')"
| "get_prop JNull k = Inl (TypeError ''Cannot read properties of null'')"
| "get_prop (JObj kvs) k = Inr (case map_of kvs k of None \<Rightarrow> JUndefined | Some v \<Rightarrow> v)"
| "get_prop v k = Inr JUndefined"

text \<open>\<open>String.prototype.toLowerCase\<close>, on the ASCII letters.\<close>

definition toLowerCase_char :: "char \<Rightarrow> char" where
  "toLowerCase_char c =
     (let n = (of_char c :: nat) in if 65 \<le> n \<and> n \<le> 90 then char_of (n + 32) else c)"

definition str_toLowerCase :: "string \<Rightarrow> string" where
  "str_toLowerCase s = map toLowerCase_char s"

text \<open>\<open>v.toLowerCase()\<close>: only a string has the method.\<close>

fun toLowerCase :: "jsval \<Rightarrow> error + jsval" where
  "toLowerCase (JStr s) = Inr (JStr (str_toLowerCase s))"
| "toLowerCase v = Inl (TypeError ''toLowerCase is not a function'')"

fun string_of_nat :: "nat \<Rightarrow> string" where
  "string_of_nat n =
     (if n < 10 then [char_of (48 + n)]
      else string_of_nat (n div 10) @ [char_of (48 + n mod 10)])"

declare string_of_nat.simps [simp del]

text \<open>\<open>Object.entries(v)\<close>: the own enumerable properties; a string's are its
  characters under their indices, a number or a boolean has none.\<close>

fun object_entries :: "jsval \<Rightarrow> error + (string \<times> jsval) list" where
  "object_entries JUndefined = Inl (TypeError ''Cannot convert undefined or null to object'')"
| "object_entries JNull = Inl (TypeError ''Cannot convert undefined or null to object'')"
| "object_entries (JObj kvs) = Inr kvs"
| "object_entries (JStr s) =
     Inr (zip (map string_of_nat [0..<length s]) (map (\<lambda>c. JStr [c]) s))"
| "object_entries v = Inr []"

subsection \<open>Numbers: IEEE-754 binary64\<close>

text \<open>A JavaScript number is a double: a finite value, an infinity or NaN. A finite
  double is carried as the rational it denotes; negative zero is not told from zero (the
  program never divides by a computed value, and JSON writes both as \<open>0\<close>).\<close>

datatype jsnum = Fin rat | PosInf | NegInf | NaN

text \<open>The binary exponent of a positive rational: the \<open>e\<close> with
  \<open>2^e \<le> a < 2^(e+1)\<close>.\<close>

definition ilog2 :: "rat \<Rightarrow> int" where
  "ilog2 a =
     (case quotient_of a of (p, q) \<Rightarrow>
        (let d = bitlen p - bitlen q in if 2 powi d \<le> a then d else d - 1))"

text \<open>Rounding to the nearest integer, ties to the even one.\<close>

definition round_half_even :: "rat \<Rightarrow> int" where
  "round_half_even m =
     (let f = \<lfloor>m\<rfloor>; r = m - of_int f in
      if r < 1 / 2 then f else if 1 / 2 < r then f + 1 else if even f then f else f + 1)"

text \<open>The double an exact result is rounded to (round to nearest, ties to even): 53
  significant bits, exponents from -1022 (below that the spacing stays
  \<open>2^-1074\<close>), and an infinity when the rounded magnitude reaches \<open>2^1024\<close>.\<close>

definition round_double :: "rat \<Rightarrow> jsnum" where
  "round_double x =
     (if x = 0 then Fin 0
      else (let a = \<bar>x\<bar>;
                e = max (ilog2 a) (- 1022);
                q = 2 powi (e - 52);
                y = of_int (round_half_even (a / q)) * q
            in if 2 powi 1024 \<le> y then (if 0 < x then PosInf else NegInf)
               else Fin (if 0 < x then y else - y)))"

text \<open>\<open>a + b\<close> on numbers.\<close>

fun js_add :: "jsnum \<Rightarrow> jsnum \<Rightarrow> jsnum" where
  "js_add (Fin a) (Fin b) = round_double (a + b)"
| "js_add NaN y = NaN"
| "js_add x NaN = NaN"
| "js_add PosInf NegInf = NaN"
| "js_add NegInf PosInf = NaN"
| "js_add PosInf y = PosInf"
| "js_add NegInf y = NegInf"
| "js_add x PosInf = PosInf"
| "js_add x NegInf = NegInf"

text \<open>\<open>a / n\<close> for the length \<open>n\<close> of an array (an integer below \<open>2^32\<close>,
  which is a double).\<close>

fun js_div_length :: "jsnum \<Rightarrow> nat \<Rightarrow> jsnum" where
  "js_div_length (Fin a) n =
     (if n = 0 then (if a = 0 then NaN else if 0 < a then PosInf else NegInf)
      else round_double (a / of_nat n))"
| "js_div_length PosInf n = PosInf"
| "js_div_length NegInf n = NegInf"
| "js_div_length NaN n = NaN"

text \<open>What \<open>JSON.stringify\<close> writes for a value that is \<open>null\<close> or a number: a
  number that is not finite is written \<open>null\<close>.\<close>

fun json_number :: "jsnum option \<Rightarrow> rat option" where
  "json_number None = None"
| "json_number (Some (Fin x)) = Some x"
| "json_number (Some PosInf) = None"
| "json_number (Some NegInf) = None"
| "json_number (Some NaN) = None"

text \<open>\<open>Number(v)\<close>. The conversion of a non-empty string to a number is the
  runtime's; it is a parameter of the model.\<close>

fun Number :: "(string \<Rightarrow> jsnum) \<Rightarrow> jsval \<Rightarrow> jsnum" where
  "Number s2n JUndefined = NaN"
| "Number s2n JNull = Fin 0"
| "Number s2n (JBool b) = Fin (if b then 1 else 0)"
| "Number s2n (JNum x) = Fin x"
| "Number s2n (JStr s) = (if s = [] then Fin 0 else s2n s)"
| "Number s2n (JObj kvs) = NaN"

subsection \<open>Optional strings\<close>

text \<open>Truthiness and \<open>||\<close> on a value that is a string or \<open>undefined\<close> (a header, a
  query parameter, a page token, an optional field of a user record).\<close>

definition str_truthy :: "string option \<Rightarrow> bool" where
  "str_truthy v = (case v of None \<Rightarrow> False | Some s \<Rightarrow> s \<noteq> [])"

definition str_or :: "string option \<Rightarrow> string option \<Rightarrow> string option" where
  "str_or a b = (if str_truthy a then a else b)"

section \<open>The external collaborators\<close>

text \<open>A Firebase Auth user record, with the fields the server reads.\<close>

record userMetadata =
  creationTime :: string
  lastSignInTime :: "string option"

record userRecord =
  u_uid :: string
  u_email :: "string option"
  u_displayName :: "string option"
  u_phoneNumber :: "string option"
  u_disabled :: bool
  u_metadata :: userMetadata

record listUsersResult =
  lr_users :: "userRecord list"
  lr_pageToken :: "string option"

text \<open>The process environment and the two adapters: \<open>admin.auth()\<close> and
  \<open>db.ref(path).once('value')\<close> followed by \<open>val()\<close>. A rejected promise is
  \<open>Inl\<close>.\<close>

record env =
  ADMIN_API_KEY :: string
  getUser :: "string \<Rightarrow> error + userRecord"
  listUsers :: "nat \<Rightarrow> string option \<Rightarrow> error + listUsersResult"
  deleteUser :: "string \<Rightarrow> error + unit"
  once_value :: "string list \<Rightarrow> error + jsval"
  stringToNumber :: "string \<Rightarrow> jsnum"

datatype call =
    CallGetUser string
  | CallListUsers nat "string option"
  | CallDeleteUser string
  | CallOnce "string list"

text \<open>The parts of an Express request the server reads: the headers (under their
  lower-case names) and the query parameters.\<close>

record request =
  headers :: "(string \<times> string) list"
  query :: "(string \<times> string) list"

section \<open>Responses\<close>

record driverListItem =
  li_uid :: string
  li_email :: "string option"
  li_displayName :: "string option"
  li_phoneNumber :: "string option"
  li_disabled :: bool
  li_creationTime :: string
  li_lastSignInTime :: "string option"

record authData =
  ad_uid :: string
  ad_email :: "string option"
  ad_displayName :: "string option"
  ad_disabled :: bool
  ad_metadata :: userMetadata

record userOut =
  out_uid :: string
  out_email :: "string option"
  out_displayName :: "string option"
  out_phoneNumber :: "string option"
  out_disabled :: bool
  out_creationTime :: "string option"
  out_lastSignInTime :: "string option"

record load =
  load_id :: string
  load_status :: jsval
  load_customerName :: jsval
  load_address :: jsval
  load_items :: jsval
  load_yards :: jsval
  load_revenue :: jsval
  load_profit :: jsval
  load_createdAt :: jsval

record ticket =
  ticket_id :: string
  ticket_url :: jsval
  ticket_fileName :: jsval
  ticket_uploadedAt :: jsval
  ticket_loadId :: jsval

record ratingOut =
  rating_id :: string
  rating_rating :: jsval
  rating_comment :: jsval
  rating_customerName :: jsval
  rating_loadId :: jsval
  rating_createdAt :: jsval

record stats =
  totalLoads :: nat
  totalTickets :: nat
  totalRatings :: nat
  avgRating :: "rat option"

record driverSummary =
  ds_user :: userOut
  ds_loads :: "load list"
  ds_tickets :: "ticket list"
  ds_ratings :: "ratingOut list"
  ds_stats :: stats

datatype body =
    Text string
  | ErrorBody string "string option"
  | UsersBody "driverListItem list"
  | OkBody
  | SummaryBody driverSummary
  | DriverBody authData jsval

datatype response = Response nat body

fun status_of :: "response \<Rightarrow> nat" where
  "status_of (Response s b) = s"

section \<open>server.js\<close>

subsection \<open>requireAdminKey\<close>

definition requireAdminKey :: "env \<Rightarrow> request \<Rightarrow> response option" where
  "requireAdminKey w req =
     (let key = str_or (str_or (map_of (headers req) ''x-admin-api-key'')
                               (map_of (headers req) ''x-admin-key''))
                       (map_of (query req) ''key'')
      in if \<not> str_truthy key \<or> key \<noteq> Some (ADMIN_API_KEY w)
         then Some (Response 401 (ErrorBody ''Unauthorized'' None))
         else None)"

subsection \<open>GET /drivers\<close>

definition list_item :: "userRecord \<Rightarrow> driverListItem" where
  "list_item u =
     \<lparr>li_uid = u_uid u, li_email = u_email u, li_displayName = u_displayName u,
      li_phoneNumber = u_phoneNumber u, li_disabled = u_disabled u,
      li_creationTime = creationTime (u_metadata u),
      li_lastSignInTime = lastSignInTime (u_metadata u)\<rparr>"

text \<open>The \<open>do ... while (nextPageToken)\<close> loop. It need not end: \<open>None\<close> is a
  handler that never answers.\<close>

partial_function (option) listUsers_loop ::
  "env \<Rightarrow> string option \<Rightarrow> driverListItem list \<Rightarrow> call list
     \<Rightarrow> ((error + driverListItem list) \<times> call list) option" where
  "listUsers_loop w nextPageToken users calls =
     (case listUsers w 1000 nextPageToken of
        Inl err \<Rightarrow> Some (Inl err, calls @ [CallListUsers 1000 nextPageToken])
      | Inr result \<Rightarrow>
          (if str_truthy (lr_pageToken result)
           then listUsers_loop w (lr_pageToken result)
                  (users @ map list_item (lr_users result))
                  (calls @ [CallListUsers 1000 nextPageToken])
           else Some (Inr (users @ map list_item (lr_users result)),
                      calls @ [CallListUsers 1000 nextPageToken])))"

definition get_drivers :: "env \<Rightarrow> (response \<times> call list) option" where
  "get_drivers w =
     (case listUsers_loop w None [] [] of
        None \<Rightarrow> None
      | Some (Inl err, calls) \<Rightarrow>
          Some (Response 500 (ErrorBody ''Failed to list users'' None), calls)
      | Some (Inr users, calls) \<Rightarrow> Some (Response 200 (UsersBody users), calls))"

subsection \<open>DELETE /drivers/:uid\<close>

definition delete_driver :: "env \<Rightarrow> string \<Rightarrow> response \<times> call list" where
  "delete_driver w uid =
     (case deleteUser w uid of
        Inr ok \<Rightarrow> (Response 200 OkBody, [CallDeleteUser uid])
      | Inl err \<Rightarrow>
          (Response 500 (ErrorBody ''Failed to delete user'' None), [CallDeleteUser uid]))"

subsection \<open>GET /driver-details\<close>

text \<open>The callback of \<open>Object.entries(deliveriesVal).forEach\<close>; \<open>loads\<close> is
  the array it pushes to.\<close>

definition load_callback ::
  "userRecord \<Rightarrow> string \<Rightarrow> string \<Rightarrow> jsval \<Rightarrow> load list \<Rightarrow> error + load list" where
  "load_callback userRecord uid id' obj loads =
     bind_e (get_prop obj ''details'') (\<lambda>d.
     bind_e (get_prop obj ''status'') (\<lambda>s.
     (let details = js_or d (JObj []); status = js_or s (JStr ''pending'') in
      bind_e (get_prop details ''assignedDriverEmail'') (\<lambda>ae.
      bind_e (toLowerCase (js_or ae (JStr []))) (\<lambda>assignedEmail.
      bind_e (get_prop details ''assignedDriverUid'') (\<lambda>au.
      (let assignedUid = js_or au JNull in
       if (case u_email userRecord of
             None \<Rightarrow> False
           | Some e \<Rightarrow> e \<noteq> [] \<and> assignedEmail = JStr (str_toLowerCase e))
          \<or> assignedUid = JStr uid
       then
         bind_e (get_prop details ''customerName'') (\<lambda>customerName.
         bind_e (get_prop details ''address'') (\<lambda>address.
         bind_e (get_prop details ''items'') (\<lambda>items.
         bind_e (get_prop details ''yards'') (\<lambda>yards.
         bind_e (get_prop details ''revenue'') (\<lambda>revenue.
         bind_e (get_prop details ''profit'') (\<lambda>profit.
         bind_e (get_prop obj ''createdAt'') (\<lambda>createdAt.
           Inr (loads @
             [\<lparr>load_id = id',
               load_status = status,
               load_customerName = js_or customerName (JStr []),
               load_address = js_or address (JStr []),
               load_items = js_or items (JStr []),
               load_yards = js_or yards (JNum 0),
               load_revenue = js_or revenue (JNum 0),
               load_profit = js_or profit (JNum 0),
               load_createdAt = js_or createdAt JNull\<rparr>]))))))))
       else Inr loads)))))))"

fun loads_forEach ::
  "userRecord \<Rightarrow> string \<Rightarrow> (string \<times> jsval) list \<Rightarrow> load list \<Rightarrow> error + load list" where
  "loads_forEach userRecord uid [] loads = Inr loads"
| "loads_forEach userRecord uid ((id', obj) # rest) loads =
     bind_e (load_callback userRecord uid id' obj loads)
            (\<lambda>loads'. loads_forEach userRecord uid rest loads')"

definition ticket_callback :: "string \<times> jsval \<Rightarrow> error + ticket" where
  "ticket_callback e =
     (case e of (id', t) \<Rightarrow>
        bind_e (get_prop t ''url'') (\<lambda>url.
        bind_e (get_prop t ''fileName'') (\<lambda>fileName.
        bind_e (get_prop t ''uploadedAt'') (\<lambda>uploadedAt.
        bind_e (get_prop t ''loadId'') (\<lambda>loadId.
          Inr \<lparr>ticket_id = id',
               ticket_url = js_or url (JStr []),
               ticket_fileName = js_or fileName (JStr []),
               ticket_uploadedAt = js_or uploadedAt JNull,
               ticket_loadId = js_or loadId JNull\<rparr>)))))"

definition rating_callback :: "string \<times> jsval \<Rightarrow> error + ratingOut" where
  "rating_callback e =
     (case e of (id', r) \<Rightarrow>
        bind_e (get_prop r ''rating'') (\<lambda>rating.
        bind_e (get_prop r ''comment'') (\<lambda>comment.
        bind_e (get_prop r ''customerName'') (\<lambda>customerName.
        bind_e (get_prop r ''loadId'') (\<lambda>loadId.
        bind_e (get_prop r ''createdAt'') (\<lambda>createdAt.
          Inr \<lparr>rating_id = id',
               rating_rating = js_or rating JNull,
               rating_comment = js_or comment (JStr []),
               rating_customerName = js_or customerName (JStr []),
               rating_loadId = js_or loadId JNull,
               rating_createdAt = js_or createdAt JNull\<rparr>))))))"

text \<open>\<open>Number(r.rating) || 0\<close>\<close>

definition Number_or_0 :: "(string \<Rightarrow> jsnum) \<Rightarrow> jsval \<Rightarrow> jsnum" where
  "Number_or_0 s2n v =
     (case Number s2n v of
        NaN \<Rightarrow> Fin 0
      | Fin x \<Rightarrow> (if x \<noteq> 0 then Fin x else Fin 0)
      | PosInf \<Rightarrow> PosInf
      | NegInf \<Rightarrow> NegInf)"

text \<open>The value of the variable \<open>avgRating\<close> after the \<open>if\<close>: \<open>null\<close> or a
  number.\<close>

definition calc_avgRating :: "(string \<Rightarrow> jsnum) \<Rightarrow> ratingOut list \<Rightarrow> jsnum option" where
  "calc_avgRating s2n ratings =
     (if length ratings \<noteq> 0
      then Some (js_div_length
                   (foldl (\<lambda>acc r. js_add acc (Number_or_0 s2n (rating_rating r))) (Fin 0)
                      ratings)
                   (length ratings))
      else None)"

definition user_out :: "userRecord \<Rightarrow> userOut" where
  "user_out userRecord =
     \<lparr>out_uid = u_uid userRecord,
      out_email = str_or (u_email userRecord) None,
      out_displayName = str_or (u_displayName userRecord) None,
      out_phoneNumber = str_or (u_phoneNumber userRecord) None,
      out_disabled = (u_disabled userRecord \<or> False),
      out_creationTime = str_or (Some (creationTime (u_metadata userRecord))) None,
      out_lastSignInTime = str_or (lastSignInTime (u_metadata userRecord)) None\<rparr>"

text \<open>The body of the \<open>try\<close> block, with the adapter calls it made, in order. The
  summary is the body \<open>res.json\<close> writes; \<open>avgRating\<close> is the one number in it
  that the handler computes.\<close>

definition driver_details_try :: "env \<Rightarrow> string \<Rightarrow> (error + driverSummary) \<times> call list" where
  "driver_details_try w uid =
    (case getUser w uid of
       Inl err \<Rightarrow> (Inl err, [CallGetUser uid])
     | Inr userRecord \<Rightarrow>
    (case once_value w [''deliveries''] of
       Inl err \<Rightarrow> (Inl err, [CallGetUser uid, CallOnce [''deliveries'']])
     | Inr deliveriesSnap \<Rightarrow>
    (case bind_e (object_entries (js_or deliveriesSnap (JObj [])))
                 (\<lambda>es. loads_forEach userRecord uid es []) of
       Inl err \<Rightarrow> (Inl err, [CallGetUser uid, CallOnce [''deliveries'']])
     | Inr loads \<Rightarrow>
    (case once_value w [''scaleTickets'', uid] of
       Inl err \<Rightarrow>
         (Inl err, [CallGetUser uid, CallOnce [''deliveries''], CallOnce [''scaleTickets'', uid]])
     | Inr ticketsSnap \<Rightarrow>
    (case bind_e (object_entries (js_or ticketsSnap (JObj []))) (map_e ticket_callback) of
       Inl err \<Rightarrow>
         (Inl err, [CallGetUser uid, CallOnce [''deliveries''], CallOnce [''scaleTickets'', uid]])
     | Inr tickets \<Rightarrow>
    (case once_value w [''driverRatings'', uid] of
       Inl err \<Rightarrow>
         (Inl err, [CallGetUser uid, CallOnce [''deliveries''], CallOnce [''scaleTickets'', uid],
                    CallOnce [''driverRatings'', uid]])
     | Inr ratingsSnap \<Rightarrow>
    (case bind_e (object_entries (js_or ratingsSnap (JObj []))) (map_e rating_callback) of
       Inl err \<Rightarrow>
         (Inl err, [CallGetUser uid, CallOnce [''deliveries''], CallOnce [''scaleTickets'', uid],
                    CallOnce [''driverRatings'', uid]])
     | Inr ratings \<Rightarrow>
         (Inr \<lparr>ds_user = user_out userRecord,
               ds_loads = loads,
               ds_tickets = tickets,
               ds_ratings = ratings,
               ds_stats = \<lparr>totalLoads = length loads,
                           totalTickets = length tickets,
                           totalRatings = length ratings,
                           avgRating =
                             json_number (calc_avgRating (stringToNumber w) ratings)\<rparr>\<rparr>,
          [CallGetUser uid, CallOnce [''deliveries''], CallOnce [''scaleTickets'', uid],
           CallOnce [''driverRatings'', uid]]))))))))"

definition driver_details :: "env \<Rightarrow> request \<Rightarrow> response \<times> call list" where
  "driver_details w req =
     (case map_of (query req) ''uid'' of
        None \<Rightarrow> (Response 400 (ErrorBody ''Missing uid query parameter'' None), [])
      | Some uid \<Rightarrow>
          if uid = [] then (Response 400 (ErrorBody ''Missing uid query parameter'' None), [])
          else (case driver_details_try w uid of
                  (Inr summary, calls) \<Rightarrow> (Response 200 (SummaryBody summary), calls)
                | (Inl err, calls) \<Rightarrow>
                    (Response 500 (ErrorBody ''Failed to load driver details''
                                             (Some (message err))), calls)))"

subsection \<open>The routes\<close>

datatype endpoint =
    GET_root
  | GET_drivers
  | DELETE_drivers_uid string
  | GET_driver_details

definition app :: "env \<Rightarrow> endpoint \<Rightarrow> request \<Rightarrow> (response \<times> call list) option" where
  "app w ep req =
     (case ep of
        GET_root \<Rightarrow> Some (Response 200 (Text ''OK''), [])
      | GET_drivers \<Rightarrow>
          (case requireAdminKey w req of
             Some r \<Rightarrow> Some (r, [])
           | None \<Rightarrow> get_drivers w)
      | DELETE_drivers_uid uid \<Rightarrow>
          (case requireAdminKey w req of
             Some r \<Rightarrow> Some (r, [])
           | None \<Rightarrow> Some (delete_driver w uid))
      | GET_driver_details \<Rightarrow>
          (case requireAdminKey w req of
             Some r \<Rightarrow> Some (r, [])
           | None \<Rightarrow> Some (driver_details w req)))"

section \<open>The earlier revision of the server: GET /drivers/:uid\<close>

text \<open>The handler of the earlier revision that looks one driver up. Its \<open>catch\<close>
  tells a missing user (404) from any other failure (500).\<close>

definition auth_data :: "userRecord \<Rightarrow> authData" where
  "auth_data userRecord =
     \<lparr>ad_uid = u_uid userRecord, ad_email = u_email userRecord,
      ad_displayName = str_or (u_displayName userRecord) None,
      ad_disabled = u_disabled userRecord,
      ad_metadata = \<lparr>creationTime = creationTime (u_metadata userRecord),
                      lastSignInTime = lastSignInTime (u_metadata userRecord)\<rparr>\<rparr>"

definition get_driver_by_uid :: "env \<Rightarrow> string \<Rightarrow> response \<times> call list" where
  "get_driver_by_uid w uid =
     (case getUser w uid of
        Inl err \<Rightarrow>
          (if code err = Some ''auth/user-not-found''
           then (Response 404 (ErrorBody ''User not found'' None), [CallGetUser uid])
           else (Response 500 (ErrorBody ''Failed to fetch driver'' None), [CallGetUser uid]))
      | Inr userRecord \<Rightarrow>
          (case once_value w [''driverProfiles'', uid] of
             Inl err \<Rightarrow>
               (if code err = Some ''auth/user-not-found''
                then (Response 404 (ErrorBody ''User not found'' None),
                      [CallGetUser uid, CallOnce [''driverProfiles'', uid]])
                else (Response 500 (ErrorBody ''Failed to fetch driver'' None),
                      [CallGetUser uid, CallOnce [''driverProfiles'', uid]]))
           | Inr profileSnap \<Rightarrow>
               (Response 200 (DriverBody (auth_data userRecord) (js_or profileSnap JNull)),
                [CallGetUser uid, CallOnce [''driverProfiles'', uid]])))"

section \<open>The specification's vocabulary\<close>

text \<open>The value a record stores under a field; \<open>JUndefined\<close> when the record has no
  such field (or is not an object at all).\<close>

fun stored :: "jsval \<Rightarrow> string \<Rightarrow> jsval" where
  "stored (JObj kvs) k = (case map_of kvs k of None \<Rightarrow> JUndefined | Some v \<Rightarrow> v)"
| "stored v k = JUndefined"

text \<open>A field of a delivery record's \<open>details\<close>.\<close>

definition delivery_field :: "jsval \<Rightarrow> string \<Rightarrow> jsval" where
  "delivery_field obj k = stored (stored obj ''details'') k"

text \<open>The two predicates of the loads invariant, as the specification words them: the
  delivery's assigned email equals the driver's identity email case-insensitively; the
  delivery's assigned driver id equals the driver id. A missing field matches nothing.\<close>

fun spec_email_match :: "string option \<Rightarrow> jsval \<Rightarrow> bool" where
  "spec_email_match (Some e) (JStr a) = (str_toLowerCase a = str_toLowerCase e)"
| "spec_email_match e v = False"

definition spec_matches :: "userRecord \<Rightarrow> string \<Rightarrow> jsval \<Rightarrow> bool" where
  "spec_matches u uid obj =
     (spec_email_match (u_email u) (delivery_field obj ''assignedDriverEmail'')
      \<or> delivery_field obj ''assignedDriverUid'' = JStr uid)"

fun is_JStr :: "jsval \<Rightarrow> bool" where
  "is_JStr (JStr s) = True"
| "is_JStr v = False"

fun is_JNum :: "jsval \<Rightarrow> bool" where
  "is_JNum (JNum x) = True"
| "is_JNum v = False"

text \<open>A delivery record as the data model types it: a stored record (never
  \<open>null\<close>) whose assigned email is a string, or is absent (or another falsy
  value).\<close>

definition delivery_ok :: "jsval \<Rightarrow> bool" where
  "delivery_ok obj =
     (obj \<noteq> JUndefined \<and> obj \<noteq> JNull
      \<and> (is_JStr (delivery_field obj ''assignedDriverEmail'')
         \<or> \<not> truthy (delivery_field obj ''assignedDriverEmail'')))"

text \<open>An optional field is carried: the stored value when present, the default when
  absent.\<close>

definition carried :: "jsval \<Rightarrow> jsval \<Rightarrow> jsval \<Rightarrow> bool" where
  "carried v dflt out = (if v = JUndefined then out = dflt else out = v)"

text \<open>The number a stored rating contributes to the mean: its value coerced to a
  number, 0 when that is not a number or the rating is missing.\<close>

definition spec_rating_number :: "(string \<Rightarrow> jsnum) \<Rightarrow> jsval \<Rightarrow> jsnum" where
  "spec_rating_number s2n v = (case Number s2n v of NaN \<Rightarrow> Fin 0 | y \<Rightarrow> y)"

text \<open>The value of a finite number, and the numbers that are integers of magnitude at
  most \<open>B\<close>.\<close>

fun fin_value :: "jsnum \<Rightarrow> rat" where
  "fin_value (Fin x) = x"
| "fin_value y = 0"

fun small_int :: "int \<Rightarrow> jsnum \<Rightarrow> bool" where
  "small_int B (Fin x) = (of_int \<lfloor>x\<rfloor> = x \<and> \<bar>x\<bar> \<le> of_int B)"
| "small_int B y = False"

text \<open>The pages a listing obtains from the adapter, starting with the token \<open>tok\<close>:
  each request asks for up to 1000 records and passes the token of the response before
  it; the response that carries no token is the last.\<close>

inductive page_chain :: "env \<Rightarrow> string option \<Rightarrow> userRecord list list \<Rightarrow> bool" for w where
  last_page:
    "listUsers w 1000 tok = Inr r \<Longrightarrow> \<not> str_truthy (lr_pageToken r)
       \<Longrightarrow> page_chain w tok [lr_users r]"
| next_page:
    "listUsers w 1000 tok = Inr r \<Longrightarrow> str_truthy (lr_pageToken r)
       \<Longrightarrow> page_chain w (lr_pageToken r) ps
       \<Longrightarrow> page_chain w tok (lr_users r # ps)"

text \<open>The secret a request presents: the first non-empty value among the header
  \<open>x-admin-api-key\<close>, the header \<open>x-admin-key\<close> and the query parameter
  \<open>key\<close>.\<close>

definition presented_key :: "request \<Rightarrow> string option" where
  "presented_key req =
     List.find (\<lambda>s. s \<noteq> [])
       (List.map_filter (\<lambda>x. x)
          [map_of (headers req) ''x-admin-api-key'',
           map_of (headers req) ''x-admin-key'',
           map_of (query req) ''key''])"

section \<open>Test data\<close>

definition not_found :: error where
  "not_found = AuthError ''auth/user-not-found'' ''There is no user record for this uid''"

definition user_A :: userRecord where
  "user_A =
     \<lparr>u_uid = ''drv1'', u_email = Some ''A@B.com'', u_displayName = None,
      u_phoneNumber = None, u_disabled = False,
      u_metadata = \<lparr>creationTime = ''2024-01-01'', lastSignInTime = None\<rparr>\<rparr>"

definition user_noemail :: userRecord where
  "user_noemail =
     \<lparr>u_uid = ''drv2'', u_email = None, u_displayName = Some ''Bo'',
      u_phoneNumber = None, u_disabled = False,
      u_metadata = \<lparr>creationTime = ''2024-02-02'', lastSignInTime = None\<rparr>\<rparr>"

definition user_C :: userRecord where
  "user_C =
     \<lparr>u_uid = ''drv3'', u_email = Some ''c@d.com'', u_displayName = None,
      u_phoneNumber = None, u_disabled = False,
      u_metadata = \<lparr>creationTime = ''2024-04-04'', lastSignInTime = None\<rparr>\<rparr>"

definition delivery_d1 :: jsval where
  "delivery_d1 =
     JObj [(''details'', JObj [(''assignedDriverEmail'', JStr ''a@b.com''),
                               (''customerName'', JStr ''Ann''),
                               (''revenue'', JNum 120)]),
           (''createdAt'', JNum 1700)]"

definition delivery_d2 :: jsval where
  "delivery_d2 =
     JObj [(''details'', JObj [(''assignedDriverEmail'', JStr ''A@B.COM''),
                               (''assignedDriverUid'', JStr ''drv1'')]),
           (''status'', JStr ''delivered'')]"

definition delivery_d3 :: jsval where
  "delivery_d3 = JObj [(''details'', JObj [(''customerName'', JStr ''Bob'')])]"

definition delivery_d4 :: jsval where
  "delivery_d4 =
     JObj [(''details'', JObj [(''assignedDriverEmail'', JStr []),
                               (''assignedDriverUid'', JStr ''drv2''),
                               (''yardsDelivered'', JNum 12)])]"

definition delivery_d5 :: jsval where
  "delivery_d5 = JObj []"

definition delivery_d6 :: jsval where
  "delivery_d6 = JObj [(''details'', JObj [(''assignedDriverEmail'', JStr [])])]"

definition demo_entries :: "(string \<times> jsval) list" where
  "demo_entries =
     [(''d1'', delivery_d1), (''d2'', delivery_d2), (''d3'', delivery_d3),
      (''d4'', delivery_d4), (''d5'', delivery_d5), (''d6'', delivery_d6)]"

definition demo_deliveries :: jsval where
  "demo_deliveries = JObj demo_entries"

definition demo_rating_entries :: "(string \<times> jsval) list" where
  "demo_rating_entries =
     [(''r1'', JObj [(''rating'', JNum 5)]),
      (''r2'', JObj [(''rating'', JNum 3)]),
      (''r3'', JObj [(''comment'', JStr ''late'')])]"

definition demo_ratings :: jsval where
  "demo_ratings = JObj demo_rating_entries"

definition demo_db :: "string list \<Rightarrow> error + jsval" where
  "demo_db path =
     (if path = [''deliveries''] then Inr demo_deliveries
      else if path = [''driverRatings'', ''drv1''] then Inr demo_ratings
      else Inr JNull)"

text \<open>A paged identity adapter that serves the given pages: the token of page
  \<open>i > 0\<close> is \<open>i\<close> letters long.\<close>

definition page_token :: "nat \<Rightarrow> string option" where
  "page_token i = (if i = 0 then None else Some (replicate i CHR ''p''))"

definition token_index :: "string option \<Rightarrow> nat" where
  "token_index t = (case t of None \<Rightarrow> 0 | Some s \<Rightarrow> length s)"

definition mock_listUsers ::
  "userRecord list list \<Rightarrow> nat \<Rightarrow> string option \<Rightarrow> error + listUsersResult" where
  "mock_listUsers pages maxResults tok =
     (let i = token_index tok in
      if i < length pages
      then Inr \<lparr>lr_users = pages ! i,
                lr_pageToken = (if Suc i < length pages then page_token (Suc i) else None)\<rparr>
      else Inr \<lparr>lr_users = [], lr_pageToken = None\<rparr>)"

definition mock_user :: "nat \<Rightarrow> userRecord" where
  "mock_user i =
     \<lparr>u_uid = replicate (Suc i) CHR ''u'', u_email = None, u_displayName = None,
      u_phoneNumber = None, u_disabled = False,
      u_metadata = \<lparr>creationTime = ''2024-03-03'', lastSignInTime = None\<rparr>\<rparr>"

definition demo_pages :: "userRecord list list" where
  "demo_pages =
     [map mock_user [0..<1000], map mock_user [1000..<2000], map mock_user [2000..<2037]]"

definition demo_env :: env where
  "demo_env =
     \<lparr>ADMIN_API_KEY = ''secret'',
      getUser = (\<lambda>uid. if uid = ''drv1'' then Inr user_A
                        else if uid = ''drv2'' then Inr user_noemail
                        else if uid = ''drv3'' then Inr user_C
                        else Inl not_found),
      listUsers = mock_listUsers demo_pages,
      deleteUser = (\<lambda>uid. if uid = ''drv1'' \<or> uid = ''drv2'' then Inr () else Inl not_found),
      once_value = demo_db,
      stringToNumber = (\<lambda>s. NaN)\<rparr>"

definition demo_request :: "string \<Rightarrow> request" where
  "demo_request uid = \<lparr>headers = [(''x-admin-api-key'', ''secret'')], query = [(''uid'', uid)]\<rparr>"

text \<open>What GET /driver-details answers for \<open>drv1\<close> on the test data.\<close>

definition demo_summary :: driverSummary where
  "demo_summary =
     \<lparr>ds_user = \<lparr>out_uid = ''drv1'', out_email = Some ''A@B.com'', out_displayName = None,
                  out_phoneNumber = None, out_disabled = False,
                  out_creationTime = Some ''2024-01-01'', out_lastSignInTime = None\<rparr>,
      ds_loads =
        [\<lparr>load_id = ''d1'', load_status = JStr ''pending'', load_customerName = JStr ''Ann'',
          load_address = JStr [], load_items = JStr [], load_yards = JNum 0,
          load_revenue = JNum 120, load_profit = JNum 0, load_createdAt = JNum 1700\<rparr>,
         \<lparr>load_id = ''d2'', load_status = JStr ''delivered'', load_customerName = JStr [],
          load_address = JStr [], load_items = JStr [], load_yards = JNum 0,
          load_revenue = JNum 0, load_profit = JNum 0, load_createdAt = JNull\<rparr>],
      ds_tickets = [],
      ds_ratings =
        [\<lparr>rating_id = ''r1'', rating_rating = JNum 5, rating_comment = JStr [],
          rating_customerName = JStr [], rating_loadId = JNull, rating_createdAt = JNull\<rparr>,
         \<lparr>rating_id = ''r2'', rating_rating = JNum 3, rating_comment = JStr [],
          rating_customerName = JStr [], rating_loadId = JNull, rating_createdAt = JNull\<rparr>,
         \<lparr>rating_id = ''r3'', rating_rating = JNull, rating_comment = JStr ''late'',
          rating_customerName = JStr [], rating_loadId = JNull, rating_createdAt = JNull\<rparr>],
      ds_stats = \<lparr>totalLoads = 2, totalTickets = 0, totalRatings = 3,
                  avgRating = Some (6004799503160661 / 2251799813685248)\<rparr>\<rparr>"

definition demo_calls :: "string \<Rightarrow> call list" where
  "demo_calls uid =
     [CallGetUser uid, CallOnce [''deliveries''], CallOnce [''scaleTickets'', uid],
      CallOnce [''driverRatings'', uid]]"

text \<open>Two ratings of \<open>2^1023\<close>, a double, stored for \<open>drv3\<close>.\<close>

definition huge :: rat where
  "huge = 2 ^ 1023"

definition huge_rating_entries :: "(string \<times> jsval) list" where
  "huge_rating_entries =
     [(''r1'', JObj [(''rating'', JNum huge)]), (''r2'', JObj [(''rating'', JNum huge)])]"

definition huge_env :: env where
  "huge_env =
     demo_env\<lparr>once_value :=
       (\<lambda>path. if path = [''driverRatings'', ''drv3''] then Inr (JObj huge_rating_entries)
                else demo_db path)\<rparr>"

definition huge_ratings :: "ratingOut list" where
  "huge_ratings =
     [\<lparr>rating_id = ''r1'', rating_rating = JNum huge, rating_comment = JStr [],
       rating_customerName = JStr [], rating_loadId = JNull, rating_createdAt = JNull\<rparr>,
      \<lparr>rating_id = ''r2'', rating_rating = JNum huge, rating_comment = JStr [],
       rating_customerName = JStr [], rating_loadId = JNull, rating_createdAt = JNull\<rparr>]"

text \<open>A request that carries a wrong value in the first header and the admin key in
  the second.\<close>

definition cross_key_request :: request where
  "cross_key_request =
     \<lparr>headers = [(''x-admin-api-key'', ''wrong''), (''x-admin-key'', ''secret'')],
      query = [(''uid'', ''drv1'')]\<rparr>"

section \<open>Closed forms of the deliveries scan\<close>

text \<open>The object literal the scan pushes for a delivery, and the condition of its
  \<open>if\<close>, both read off a stored record.\<close>

definition load_of :: "string \<Rightarrow> jsval \<Rightarrow> load" where
  "load_of id' obj =
     \<lparr>load_id = id',
      load_status = js_or (stored obj ''status'') (JStr ''pending''),
      load_customerName = js_or (delivery_field obj ''customerName'') (JStr []),
      load_address = js_or (delivery_field obj ''address'') (JStr []),
      load_items = js_or (delivery_field obj ''items'') (JStr []),
      load_yards = js_or (delivery_field obj ''yards'') (JNum 0),
      load_revenue = js_or (delivery_field obj ''revenue'') (JNum 0),
      load_profit = js_or (delivery_field obj ''profit'') (JNum 0),
      load_createdAt = js_or (stored obj ''createdAt'') JNull\<rparr>"

definition code_matches :: "userRecord \<Rightarrow> string \<Rightarrow> jsval \<Rightarrow> bool" where
  "code_matches u uid obj =
     ((case u_email u of
         None \<Rightarrow> False
       | Some e \<Rightarrow> e \<noteq> [] \<and>
           toLowerCase (js_or (delivery_field obj ''assignedDriverEmail'') (JStr []))
             = Inr (JStr (str_toLowerCase e)))
      \<or> js_or (delivery_field obj ''assignedDriverUid'') JNull = JStr uid)"

section \<open>Properties of the rounding to a double\<close>

lemma pow2_pos: "0 < (2::rat) powi k"
  by (simp add: zero_less_power_int)

lemma pow2_mono: "i \<le> j \<Longrightarrow> (2::rat) powi i \<le> 2 powi j"
  by (simp add: power_int_increasing)

lemma pow2_strict_mono: "i < j \<Longrightarrow> (2::rat) powi i < 2 powi j"
  by (simp add: power_int_strict_increasing)

lemma pow2_less_D: "(2::rat) powi i < 2 powi j \<Longrightarrow> i < j"
  using pow2_mono [of j i] by (cases "i < j") auto

lemma pow2_le_D: "(2::rat) powi i \<le> 2 powi j \<Longrightarrow> i \<le> j"
  using pow2_strict_mono [of j i] by (cases "i \<le> j") auto

lemma pow2_add: "(2::rat) powi (i + j) = 2 powi i * 2 powi j"
  by (simp add: power_int_add)

lemma pow2_diff: "(2::rat) powi (i - j) = 2 powi i / 2 powi j"
  by (simp add: power_int_diff)

lemma pow2_nat: "(2::rat) powi (int n) = 2 ^ n"
  by simp

lemma bitlen_rat_bounds:
  assumes "0 < p"
  shows "(2::rat) powi (bitlen p - 1) \<le> of_int p" and "of_int p < (2::rat) powi (bitlen p)"
proof -
  from bitlen_bounds [OF assms]
  have lo: "2 ^ nat (bitlen p - 1) \<le> p" and hi: "p < 2 ^ nat (bitlen p)" by auto
  have b1: "1 \<le> bitlen p" using assms by (simp add: bitlen_alt_def)
  have "(2::rat) powi (bitlen p - 1) = 2 ^ nat (bitlen p - 1)"
    using b1 by (simp add: power_int_def)
  also have "\<dots> = of_int (2 ^ nat (bitlen p - 1))" by simp
  also have "\<dots> \<le> of_int p" using lo by (simp only: of_int_le_iff)
  finally show "(2::rat) powi (bitlen p - 1) \<le> of_int p" .
  have "(of_int p :: rat) < of_int (2 ^ nat (bitlen p))" using hi by (simp only: of_int_less_iff)
  also have "\<dots> = 2 ^ nat (bitlen p)" by simp
  also have "\<dots> = (2::rat) powi (bitlen p)" using b1 by (simp add: power_int_def)
  finally show "of_int p < (2::rat) powi (bitlen p)" .
qed

lemma ilog2_bounds:
  assumes "0 < a"
  shows "2 powi (ilog2 a) \<le> a" and "a < 2 powi (ilog2 a + 1)"
proof -
  obtain p q where pq: "quotient_of a = (p, q)" by (cases "quotient_of a")
  then have q: "0 < q" by (rule quotient_of_denom_pos)
  from pq have a: "a = of_int p / of_int q" by (rule quotient_of_div)
  with assms q have p: "0 < p" by (simp add: zero_less_divide_iff)
  let ?d = "bitlen p - bitlen q"
  have qr: "(0::rat) < of_int q" using q by simp
  have lo: "2 powi (?d - 1) < a"
  proof -
    have "(2::rat) powi (?d - 1) = 2 powi (bitlen p - 1) / 2 powi (bitlen q)"
      by (simp add: pow2_diff [symmetric] algebra_simps)
    also have "\<dots> \<le> of_int p / 2 powi (bitlen q)"
      using bitlen_rat_bounds(1) [OF p] pow2_pos by (simp add: divide_right_mono)
    also have "\<dots> < of_int p / of_int q"
      using bitlen_rat_bounds(2) [OF q] p qr by (simp add: divide_strict_left_mono pow2_pos)
    finally show ?thesis by (simp add: a)
  qed
  have hi: "a < 2 powi (?d + 1)"
  proof -
    have "a < 2 powi (bitlen p) / of_int q"
      using bitlen_rat_bounds(2) [OF p] qr by (simp add: a divide_strict_right_mono)
    also have "\<dots> \<le> 2 powi (bitlen p) / 2 powi (bitlen q - 1)"
      using bitlen_rat_bounds(1) [OF q] pow2_pos [of "bitlen p"] pow2_pos [of "bitlen q - 1"]
      by (intro frac_le) simp_all
    also have "\<dots> = 2 powi (?d + 1)"
      by (simp add: pow2_diff [symmetric] algebra_simps)
    finally show ?thesis .
  qed
  show "2 powi (ilog2 a) \<le> a"
    using lo pq by (auto simp: ilog2_def Let_def)
  show "a < 2 powi (ilog2 a + 1)"
    using hi pq by (auto simp: ilog2_def Let_def)
qed

lemma round_half_even_of_int: "round_half_even (of_int m) = m"
  by (simp add: round_half_even_def)

lemma round_half_even_ge: "\<lfloor>m\<rfloor> \<le> round_half_even m"
  by (simp add: round_half_even_def Let_def)

lemma round_half_even_le: "round_half_even m \<le> \<lfloor>m\<rfloor> + 1"
  by (simp add: round_half_even_def Let_def)


lemma round_double_exact:
  assumes x: "x = of_int m * 2 powi j" and m: "\<bar>m\<bar> < 2 ^ 53" and j: "- 1074 \<le> j"
    and b: "\<bar>x\<bar> < 2 powi 1024"
  shows "round_double x = Fin x"
proof (cases "x = 0")
  case True
  then show ?thesis by (simp add: round_double_def)
next
  case False
  define a where "a = \<bar>x\<bar>"
  define e where "e = max (ilog2 a) (- 1022)"
  define q where "q = (2::rat) powi (e - 52)"
  have a0: "0 < a" using False by (simp add: a_def)
  have am: "a = of_int \<bar>m\<bar> * 2 powi j"
    using pow2_pos [of j] by (simp add: a_def x abs_mult)
  have "a < 2 ^ 53 * 2 powi j"
  proof -
    have "(of_int \<bar>m\<bar> :: rat) < of_int (2 ^ 53)" using m by (simp only: of_int_less_iff)
    then show ?thesis using pow2_pos [of j] by (simp add: am)
  qed
  also have "\<dots> = 2 powi (53 + j)" by (simp add: pow2_add)
  finally have "2 powi (ilog2 a) < (2::rat) powi (53 + j)"
    using ilog2_bounds(1) [OF a0] by simp
  then have "ilog2 a < 53 + j" by (rule pow2_less_D)
  with j have e: "e - 52 \<le> j" by (simp add: e_def)
  define n where "n = nat (j - (e - 52))"
  have jn: "j = (e - 52) + int n" using e by (simp add: n_def)
  have "a / q = of_int \<bar>m\<bar> * 2 powi (int n)"
    using pow2_pos [of "e - 52"] by (simp add: am q_def jn pow2_add)
  also have "\<dots> = of_int (\<bar>m\<bar> * 2 ^ n)" by simp
  finally have aq: "a / q = of_int (\<bar>m\<bar> * 2 ^ n)" .
  have y: "of_int (round_half_even (a / q)) * q = a"
    unfolding aq round_half_even_of_int
    using aq pow2_pos [of "e - 52"] by (simp add: q_def field_simps)
  have xs: "(if 0 < x then a else - a) = x" by (simp add: a_def)
  have b': "\<not> 2 powi 1024 \<le> a" using b by (simp add: a_def)
  have "round_double x =
     (if 2 powi 1024 \<le> of_int (round_half_even (a / q)) * q
      then (if 0 < x then PosInf else NegInf)
      else Fin (if 0 < x then of_int (round_half_even (a / q)) * q
                else - (of_int (round_half_even (a / q)) * q)))"
    using False by (simp add: round_double_def Let_def a_def e_def q_def)
  also have "\<dots> = Fin x" by (simp only: y b' xs if_False)
  finally show ?thesis .
qed

lemma round_double_int:
  assumes "\<bar>k\<bar> < 2 ^ 53"
  shows "round_double (of_int k) = Fin (of_int k)"
proof (rule round_double_exact [of _ k 0])
  show "(of_int k :: rat) = of_int k * 2 powi 0" by simp
  show "\<bar>k\<bar> < 2 ^ 53" by (rule assms)
  show "- 1074 \<le> (0::int)" by simp
  have "\<bar>of_int k :: rat\<bar> = of_int \<bar>k\<bar>" by simp
  also have "\<dots> < of_int (2 ^ 53)" using assms by (simp only: of_int_less_iff)
  also have "\<dots> \<le> 2 powi 1024" by simp
  finally show "\<bar>of_int k :: rat\<bar> < 2 powi 1024" .
qed

lemma round_double_finite:
  assumes "\<bar>x\<bar> \<le> 2 ^ 53"
  shows "\<exists>y. round_double x = Fin y"
proof (cases "x = 0")
  case True
  then show ?thesis by (simp add: round_double_def)
next
  case False
  define a where "a = \<bar>x\<bar>"
  define e where "e = max (ilog2 a) (- 1022)"
  define q where "q = (2::rat) powi (e - 52)"
  have a0: "0 < a" using False by (simp add: a_def)
  have "2 powi (ilog2 a) \<le> (2::rat) powi 53"
    using ilog2_bounds(1) [OF a0] assms by (simp add: a_def)
  then have "ilog2 a \<le> 53" by (rule pow2_le_D)
  then have "e - 52 \<le> 1" by (simp add: e_def)
  then have "q \<le> 2 powi 1" unfolding q_def by (rule pow2_mono)
  then have q2: "q \<le> 2" by simp
  have q0: "0 < q" by (simp add: q_def pow2_pos)
  have "of_int (round_half_even (a / q)) \<le> (of_int (\<lfloor>a / q\<rfloor> + 1) :: rat)"
    using round_half_even_le [of "a / q"] by (simp only: of_int_le_iff)
  also have "\<dots> \<le> a / q + 1" by simp
  finally have "of_int (round_half_even (a / q)) * q \<le> (a / q + 1) * q"
    using q0 by (simp add: mult_right_mono)
  also have "\<dots> = a + q" using q0 by (simp add: field_simps)
  also have "\<dots> \<le> 2 ^ 53 + 2" using assms q2 by (simp add: a_def)
  also have "\<dots> < 2 powi 1024" by simp
  finally have "\<not> 2 powi 1024 \<le> of_int (round_half_even (a / q)) * q" by simp
  then show ?thesis
    using False
    unfolding round_double_def Let_def a_def [symmetric] e_def [symmetric] q_def [symmetric]
    by simp
qed

lemma round_double_overflow:
  assumes "2 powi 1024 \<le> x"
  shows "round_double x = PosInf"
proof -
  have x0: "0 < x" using assms pow2_pos [of 1024] by (rule less_le_trans [rotated])
  define e where "e = max (ilog2 x) (- 1022)"
  define q where "q = (2::rat) powi (e - 52)"
  have "(2::rat) powi 1024 < 2 powi (ilog2 x + 1)"
    using ilog2_bounds(2) [OF x0] assms by simp
  then have "1024 < ilog2 x + 1" by (rule pow2_less_D)
  then have e: "e = ilog2 x" and e1024: "1024 \<le> e" by (simp_all add: e_def)
  have q0: "0 < q" by (simp add: q_def pow2_pos)
  have "(2::rat) ^ 52 = 2 powi e / q" by (simp add: q_def pow2_diff)
  also have "\<dots> \<le> x / q" using ilog2_bounds(1) [OF x0] q0 by (simp add: e divide_right_mono)
  finally have "(2::rat) ^ 52 \<le> x / q" .
  then have "2 ^ 52 \<le> \<lfloor>x / q\<rfloor>" using le_floor_iff [of "2 ^ 52" "x / q"] by simp
  then have "2 ^ 52 \<le> round_half_even (x / q)"
    using round_half_even_ge [of "x / q"] by (rule order_trans)
  then have "(of_int (2 ^ 52) :: rat) \<le> of_int (round_half_even (x / q))"
    by (simp only: of_int_le_iff)
  then have "2 ^ 52 * q \<le> of_int (round_half_even (x / q)) * q"
    using q0 by (simp add: mult_right_mono)
  moreover have "2 ^ 52 * q = 2 powi e" by (simp add: q_def pow2_diff)
  moreover have "(2::rat) powi 1024 \<le> 2 powi e" using e1024 by (rule pow2_mono)
  ultimately have "2 powi 1024 \<le> of_int (round_half_even (x / q)) * q" by simp
  then show ?thesis
    using x0
    unfolding round_double_def Let_def e_def [symmetric] q_def [symmetric]
    by (simp add: e_def q_def)
qed

text \<open>Some doubles: 0.1, the tie at \<open>2^53 + 1\<close> that goes to the even neighbour, the
  value above it, and a negative integer.\<close>

lemma round_double_samples:
  "round_double (1 / 10) = Fin (3602879701896397 / 36028797018963968)"
  "round_double (2 ^ 53 + 1) = Fin (2 ^ 53)"
  "round_double (2 ^ 53 + 3) = Fin (2 ^ 53 + 4)"
  "round_double (- 5) = Fin (- 5)"
  by code_simp+

lemma round_double_8_3: "round_double (8 / 3) = Fin (6004799503160661 / 2251799813685248)"
  by code_simp

section \<open>Properties of the handlers\<close>

subsection \<open>The deliveries scan\<close>

lemma get_prop_stored:
  "v \<noteq> JUndefined \<Longrightarrow> v \<noteq> JNull \<Longrightarrow> get_prop v k = Inr (stored v k)"
  by (cases v) auto

lemma get_prop_Inr: "get_prop v k = Inr x \<Longrightarrow> v \<noteq> JUndefined \<and> v \<noteq> JNull \<and> x = stored v k"
  by (cases v) auto

lemma details_not_nullish:
  "js_or d (JObj []) \<noteq> JUndefined" "js_or d (JObj []) \<noteq> JNull"
  by (cases d; simp add: js_or_def)+

lemma get_prop_details:
  "get_prop (js_or (stored obj ''details'') (JObj [])) k = Inr (delivery_field obj k)"
  by (cases "stored obj ''details''") (auto simp: js_or_def delivery_field_def)

lemma toLowerCase_Inr:
  "toLowerCase (js_or v (JStr [])) = Inr x \<longleftrightarrow>
     (is_JStr v \<or> \<not> truthy v) \<and> x = JStr (str_toLowerCase (case v of JStr s \<Rightarrow> s | _ \<Rightarrow> []))"
  by (cases v) (auto simp: js_or_def str_toLowerCase_def)

lemma load_callback_ok:
  assumes "delivery_ok obj"
  shows "load_callback u uid id' obj loads
           = Inr (if code_matches u uid obj then loads @ [load_of id' obj] else loads)"
proof -
  from assms have nn: "obj \<noteq> JUndefined" "obj \<noteq> JNull"
    and em: "is_JStr (delivery_field obj ''assignedDriverEmail'')
         \<or> \<not> truthy (delivery_field obj ''assignedDriverEmail'')"
    by (auto simp: delivery_ok_def)
  from em obtain x where x: "toLowerCase (js_or (delivery_field obj ''assignedDriverEmail'') (JStr [])) = Inr x"
    using toLowerCase_Inr by blast
  show ?thesis
    using nn x
    by (simp add: load_callback_def get_prop_stored get_prop_details bind_e_def Let_def
        code_matches_def load_of_def split: option.splits)
qed

lemma load_callback_Inr:
  assumes "load_callback u uid id' obj loads = Inr loads'"
  shows "delivery_ok obj"
proof -
  from assms obtain d where d: "get_prop obj ''details'' = Inr d"
    by (auto simp: load_callback_def bind_e_def split: sum.splits)
  then have nn: "obj \<noteq> JUndefined" "obj \<noteq> JNull" using get_prop_Inr by blast+
  from assms nn obtain x where
    "toLowerCase (js_or (delivery_field obj ''assignedDriverEmail'') (JStr [])) = Inr x"
    by (auto simp: load_callback_def get_prop_stored get_prop_details bind_e_def Let_def
        split: sum.splits)
  then show ?thesis using nn by (simp add: toLowerCase_Inr delivery_ok_def)
qed

lemma loads_forEach_ok:
  "\<forall>e \<in> set es. delivery_ok (snd e) \<Longrightarrow>
   loads_forEach u uid es acc
     = Inr (acc @ map (\<lambda>e. load_of (fst e) (snd e)) (filter (\<lambda>e. code_matches u uid (snd e)) es))"
  by (induction es arbitrary: acc) (auto simp: load_callback_ok bind_e_def)

lemma loads_forEach_Inr:
  "loads_forEach u uid es acc = Inr loads \<Longrightarrow> \<forall>e \<in> set es. delivery_ok (snd e)"
proof (induction es arbitrary: acc)
  case Nil
  then show ?case by simp
next
  case (Cons e es)
  obtain id' obj where e: "e = (id', obj)" by (cases e)
  from Cons.prems e obtain acc' where a: "load_callback u uid id' obj acc = Inr acc'"
    and r: "loads_forEach u uid es acc' = Inr loads"
    by (auto simp: bind_e_def split: sum.splits)
  from a have "delivery_ok obj" by (rule load_callback_Inr)
  with Cons.IH [OF r] e show ?case by simp
qed

lemma str_toLowerCase_Nil: "str_toLowerCase s = [] \<longleftrightarrow> s = []"
  by (simp add: str_toLowerCase_def)

lemma code_matches_spec:
  assumes "delivery_ok obj" and "uid \<noteq> []" and "u_email u \<noteq> Some []"
  shows "code_matches u uid obj = spec_matches u uid obj"
proof -
  have uidp: "js_or (delivery_field obj ''assignedDriverUid'') JNull = JStr uid
      \<longleftrightarrow> delivery_field obj ''assignedDriverUid'' = JStr uid"
    using assms(2) by (cases "delivery_field obj ''assignedDriverUid''") (auto simp: js_or_def)
  have emp: "(case u_email u of
         None \<Rightarrow> False
       | Some e \<Rightarrow> e \<noteq> [] \<and>
           toLowerCase (js_or (delivery_field obj ''assignedDriverEmail'') (JStr []))
             = Inr (JStr (str_toLowerCase e)))
     = spec_email_match (u_email u) (delivery_field obj ''assignedDriverEmail'')"
    using assms(1,3)
    by (cases "u_email u"; cases "delivery_field obj ''assignedDriverEmail''")
       (auto simp: delivery_ok_def js_or_def str_toLowerCase_def)
  show ?thesis unfolding code_matches_def spec_matches_def uidp emp ..
qed

subsection \<open>The handler of GET /driver-details\<close>

lemma object_entries_or: "\<exists>es. object_entries (js_or v (JObj [])) = Inr es"
  by (cases v) (auto simp: js_or_def)

lemma driver_details_try_Inr:
  assumes "driver_details_try w uid = (Inr s, calls)"
  shows "\<exists>u dv es tv tes rv res.
     getUser w uid = Inr u \<and> once_value w [''deliveries''] = Inr dv
     \<and> object_entries (js_or dv (JObj [])) = Inr es
     \<and> loads_forEach u uid es [] = Inr (ds_loads s)
     \<and> once_value w [''scaleTickets'', uid] = Inr tv
     \<and> object_entries (js_or tv (JObj [])) = Inr tes
     \<and> map_e ticket_callback tes = Inr (ds_tickets s)
     \<and> once_value w [''driverRatings'', uid] = Inr rv
     \<and> object_entries (js_or rv (JObj [])) = Inr res
     \<and> map_e rating_callback res = Inr (ds_ratings s)
     \<and> ds_user s = user_out u
     \<and> ds_stats s = \<lparr>totalLoads = length (ds_loads s), totalTickets = length (ds_tickets s),
                      totalRatings = length (ds_ratings s),
                      avgRating = json_number (calc_avgRating (stringToNumber w) (ds_ratings s))\<rparr>"
  using assms
  by (auto simp: driver_details_try_def bind_e_def split: sum.splits)

lemma driver_details_try_ok:
  assumes "getUser w uid = Inr u" "once_value w [''deliveries''] = Inr dv"
     "object_entries (js_or dv (JObj [])) = Inr es"
     "loads_forEach u uid es [] = Inr loads"
     "once_value w [''scaleTickets'', uid] = Inr tv"
     "object_entries (js_or tv (JObj [])) = Inr tes"
     "map_e ticket_callback tes = Inr tickets"
     "once_value w [''driverRatings'', uid] = Inr rv"
     "object_entries (js_or rv (JObj [])) = Inr res"
     "map_e rating_callback res = Inr ratings"
  shows "driver_details_try w uid =
     (Inr \<lparr>ds_user = user_out u, ds_loads = loads, ds_tickets = tickets, ds_ratings = ratings,
           ds_stats = \<lparr>totalLoads = length loads, totalTickets = length tickets,
                      totalRatings = length ratings,
                      avgRating = json_number (calc_avgRating (stringToNumber w) ratings)\<rparr>\<rparr>,
      [CallGetUser uid, CallOnce [''deliveries''], CallOnce [''scaleTickets'', uid],
       CallOnce [''driverRatings'', uid]])"
  using assms by (simp add: driver_details_try_def bind_e_def)

lemma driver_details_200:
  assumes "driver_details w req = (Response 200 (SummaryBody s), calls)"
  shows "\<exists>uid. map_of (query req) ''uid'' = Some uid \<and> uid \<noteq> []
            \<and> driver_details_try w uid = (Inr s, calls)"
  using assms by (auto simp: driver_details_def split: option.splits if_splits sum.splits prod.splits)

lemma filter_cong_set: "(\<And>x. x \<in> set xs \<Longrightarrow> P x = Q x) \<Longrightarrow> filter P xs = filter Q xs"
  by (induction xs) auto

lemma loads_of_summary:
  assumes "driver_details w req = (Response 200 (SummaryBody s), calls)"
    and "map_of (query req) ''uid'' = Some uid"
    and "getUser w uid = Inr u"
    and "once_value w [''deliveries''] = Inr dv"
    and "object_entries (js_or dv (JObj [])) = Inr es"
  shows "uid \<noteq> [] \<and> (\<forall>e \<in> set es. delivery_ok (snd e))
     \<and> ds_loads s = map (\<lambda>e. load_of (fst e) (snd e)) (filter (\<lambda>e. code_matches u uid (snd e)) es)"
proof -
  from driver_details_200 [OF assms(1)] assms(2)
  have uid: "uid \<noteq> []" and t: "driver_details_try w uid = (Inr s, calls)" by auto
  from driver_details_try_Inr [OF t] assms(3,4,5)
  have l: "loads_forEach u uid es [] = Inr (ds_loads s)" by auto
  from loads_forEach_Inr [OF l] have ok: "\<forall>e \<in> set es. delivery_ok (snd e)" .
  from loads_forEach_ok [OF ok, of u uid "[]"] l uid ok show ?thesis by simp
qed

lemma both_missing_no_match:
  assumes "delivery_field obj ''assignedDriverEmail'' = JUndefined"
    and "delivery_field obj ''assignedDriverUid'' = JUndefined"
  shows "\<not> code_matches u uid obj"
  using assms by (auto simp: code_matches_def js_or_def str_toLowerCase_def split: option.splits)


lemma code_matches_no_email:
  assumes "\<not> str_truthy (u_email u)" and "uid \<noteq> []"
  shows "code_matches u uid obj = (delivery_field obj ''assignedDriverUid'' = JStr uid)"
proof -
  have uidp: "js_or (delivery_field obj ''assignedDriverUid'') JNull = JStr uid
      \<longleftrightarrow> delivery_field obj ''assignedDriverUid'' = JStr uid"
    using assms(2) by (cases "delivery_field obj ''assignedDriverUid''") (auto simp: js_or_def)
  show ?thesis using assms(1) unfolding code_matches_def uidp
    by (auto simp: str_truthy_def split: option.splits)
qed

lemma js_or_defined: "d \<noteq> JUndefined \<Longrightarrow> js_or v d \<noteq> JUndefined"
  by (cases v) (auto simp: js_or_def)

lemma carried_num: "is_JNum v \<or> v = JUndefined \<Longrightarrow> carried v (JNum 0) (js_or v (JNum 0))"
  by (cases v) (auto simp: carried_def js_or_def)

lemma carried_str: "is_JStr v \<or> v = JUndefined \<Longrightarrow> carried v (JStr []) (js_or v (JStr []))"
  by (cases v) (auto simp: carried_def js_or_def)

lemma code_matches_imp_spec:
  assumes "delivery_ok obj" and "uid \<noteq> []" and "code_matches u uid obj"
  shows "spec_matches u uid obj"
proof -
  have uidp: "js_or (delivery_field obj ''assignedDriverUid'') JNull = JStr uid
      \<longleftrightarrow> delivery_field obj ''assignedDriverUid'' = JStr uid"
    using assms(2) by (cases "delivery_field obj ''assignedDriverUid''") (auto simp: js_or_def)
  show ?thesis
    using assms(1,3) unfolding code_matches_def spec_matches_def uidp
    by (cases "u_email u"; cases "delivery_field obj ''assignedDriverEmail''")
       (auto simp: delivery_ok_def js_or_def str_toLowerCase_def split: if_splits)
qed

lemma absent_partition: "object_entries (js_or JNull (JObj [])) = Inr []"
  by (simp add: js_or_def)

lemma driver_details_try_absent:
  "getUser w uid = Inl err \<Longrightarrow> driver_details_try w uid = (Inl err, [CallGetUser uid])"
  by (simp add: driver_details_try_def)

lemma demo_admitted: "requireAdminKey demo_env (demo_request uid) = None"
  by (simp add: requireAdminKey_def demo_env_def demo_request_def str_or_def str_truthy_def)

lemma demo_ghost_absent: "getUser demo_env ''ghost'' = Inl not_found"
  by (simp add: demo_env_def)

lemma demo_query_uid: "map_of (query (demo_request uid)) ''uid'' = Some uid"
  by (simp add: demo_request_def)

lemma demo_ghost_details:
  "app demo_env GET_driver_details (demo_request ''ghost'')
     = Some (Response 500 (ErrorBody ''Failed to load driver details'' (Some (message not_found))),
             [CallGetUser ''ghost''])"
  using demo_ghost_absent
  by (simp add: app_def demo_admitted driver_details_def driver_details_try_absent demo_query_uid)

subsection \<open>The ratings and their mean\<close>

lemma map_e_Inr: "map_e f xs = Inr ys \<Longrightarrow> list_all2 (\<lambda>x y. f x = Inr y) xs ys"
  by (induction xs arbitrary: ys) (auto simp: bind_e_def split: sum.splits)

lemma rating_callback_rating:
  assumes "rating_callback e = Inr y"
  shows "rating_rating y = js_or (stored (snd e) ''rating'') JNull"
proof -
  obtain id' r where e: "e = (id', r)" by (cases e)
  from assms e obtain x where "get_prop r ''rating'' = Inr x"
    by (auto simp: rating_callback_def bind_e_def split: sum.splits)
  then have nn: "r \<noteq> JUndefined" "r \<noteq> JNull" using get_prop_Inr by blast+
  from assms e nn show ?thesis
    by (auto simp: rating_callback_def bind_e_def get_prop_stored)
qed

lemma Number_or_0_spec: "Number_or_0 s2n (js_or v JNull) = spec_rating_number s2n v"
  by (cases v) (auto simp: Number_or_0_def spec_rating_number_def js_or_def split: jsnum.splits)

lemma small_int_D:
  assumes "small_int B y"
  shows "y = Fin (of_int \<lfloor>fin_value y\<rfloor>)" and "\<bar>\<lfloor>fin_value y\<rfloor>\<bar> \<le> B"
proof -
  from assms obtain x where y: "y = Fin x" and sx: "small_int B (Fin x)"
    by (cases y) auto
  from sx have i: "of_int \<lfloor>x\<rfloor> = x" and b: "\<bar>x\<bar> \<le> of_int B"
    using of_int_floor_cancel [of x] by auto
  show "y = Fin (of_int \<lfloor>fin_value y\<rfloor>)" by (simp only: y fin_value.simps i)
  from b have "\<bar>(of_int \<lfloor>x\<rfloor> :: rat)\<bar> \<le> of_int B" by (simp only: i)
  then have "(of_int \<bar>\<lfloor>x\<rfloor>\<bar> :: rat) \<le> of_int B" by simp
  then have "\<bar>\<lfloor>x\<rfloor>\<bar> \<le> B" by (simp only: of_int_le_iff)
  with y show "\<bar>\<lfloor>fin_value y\<rfloor>\<bar> \<le> B" by simp
qed

lemma foldl_js_add_exact:
  assumes "\<forall>r \<in> set rs. small_int B (c r)"
    and "\<bar>a\<bar> + int (length rs) * B < 2 ^ 53"
  shows "foldl (\<lambda>acc r. js_add acc (c r)) (Fin (of_int a)) rs
           = Fin (of_int (a + sum_list (map (\<lambda>r. \<lfloor>fin_value (c r)\<rfloor>) rs)))
       \<and> \<bar>a + sum_list (map (\<lambda>r. \<lfloor>fin_value (c r)\<rfloor>) rs)\<bar> \<le> \<bar>a\<bar> + int (length rs) * B"
  using assms
proof (induction rs arbitrary: a)
  case Nil
  then show ?case by simp
next
  case (Cons r rs)
  let ?k = "\<lfloor>fin_value (c r)\<rfloor>"
  from Cons.prems(1) have sr: "small_int B (c r)" by simp
  from small_int_D [OF sr] have cr: "c r = Fin (of_int ?k)" and kb: "\<bar>?k\<bar> \<le> B" by auto
  from kb have B0: "0 \<le> B" by linarith
  then have nB: "0 \<le> int (length rs) * B" by simp
  have ak: "\<bar>a + ?k\<bar> \<le> \<bar>a\<bar> + B" using kb by linarith
  have len: "int (length (r # rs)) * B = B + int (length rs) * B" by (simp add: algebra_simps)
  from Cons.prems(2) len have tot: "\<bar>a\<bar> + B + int (length rs) * B < 2 ^ 53" by simp
  with ak nB have small: "\<bar>a + ?k\<bar> < 2 ^ 53" by linarith
  have step: "js_add (Fin (of_int a)) (c r) = Fin (of_int (a + ?k))"
  proof -
    have "js_add (Fin (of_int a)) (c r) = round_double (of_int a + of_int ?k)"
      by (subst cr) simp
    also have "\<dots> = round_double (of_int (a + ?k))" by simp
    also have "\<dots> = Fin (of_int (a + ?k))" using small by (rule round_double_int)
    finally show ?thesis .
  qed
  have p2: "\<bar>a + ?k\<bar> + int (length rs) * B < 2 ^ 53" using ak tot by linarith
  from Cons.prems(1) have p1: "\<forall>r \<in> set rs. small_int B (c r)" by simp
  from Cons.IH [OF p1 p2]
  have ih1: "foldl (\<lambda>acc r. js_add acc (c r)) (Fin (of_int (a + ?k))) rs
           = Fin (of_int (a + ?k + sum_list (map (\<lambda>r. \<lfloor>fin_value (c r)\<rfloor>) rs)))"
    and ih2: "\<bar>a + ?k + sum_list (map (\<lambda>r. \<lfloor>fin_value (c r)\<rfloor>) rs)\<bar>
                \<le> \<bar>a + ?k\<bar> + int (length rs) * B"
    by auto
  have e1: "foldl (\<lambda>acc r. js_add acc (c r)) (Fin (of_int a)) (r # rs)
      = Fin (of_int (a + sum_list (map (\<lambda>r. \<lfloor>fin_value (c r)\<rfloor>) (r # rs))))"
    using ih1 by (simp only: foldl_Cons step list.map sum_list.Cons add.assoc)
  have e2: "\<bar>a + sum_list (map (\<lambda>r. \<lfloor>fin_value (c r)\<rfloor>) (r # rs))\<bar>
      \<le> \<bar>a\<bar> + int (length (r # rs)) * B"
    using ih2 ak len by (simp add: add.assoc)
  from e1 e2 show ?case by blast
qed

lemma sum_list_floor_small:
  assumes "\<forall>r \<in> set rs. small_int B (c r)"
  shows "(of_int (sum_list (map (\<lambda>r. \<lfloor>fin_value (c r)\<rfloor>) rs)) :: rat)
           = sum_list (map (\<lambda>r. fin_value (c r)) rs)"
  using assms
proof (induction rs)
  case Nil
  then show ?case by simp
next
  case (Cons r rs)
  from Cons.prems have "small_int B (c r)" by simp
  then have "of_int \<lfloor>fin_value (c r)\<rfloor> = fin_value (c r)"
    using small_int_D(1) [of B "c r"] by (cases "c r") auto
  with Cons show ?case by simp
qed

lemma sum_list_all2:
  "list_all2 (\<lambda>x y. g y = h x) xs ys \<Longrightarrow> sum_list (map g ys) = sum_list (map h xs)"
  for g :: "'b \<Rightarrow> rat"
  by (induction rule: list_all2_induct) simp_all

lemma list_all2_set2: "list_all2 P xs ys \<Longrightarrow> y \<in> set ys \<Longrightarrow> \<exists>x \<in> set xs. P x y"
  by (induction rule: list_all2_induct) auto

text \<open>The mean of small integers, as the handler computes it.\<close>

lemma calc_avgRating_small:
  assumes m: "map_e rating_callback es = Inr ratings"
    and sm: "\<forall>e \<in> set es. small_int B (spec_rating_number s2n (stored (snd e) ''rating''))"
    and bd: "int (length es) * B < 2 ^ 53"
    and ne: "es \<noteq> []"
  shows "\<exists>y. round_double
               (sum_list (map (\<lambda>e. fin_value (spec_rating_number s2n (stored (snd e) ''rating''))) es)
                / of_nat (length es)) = Fin y
            \<and> calc_avgRating s2n ratings = Some (Fin y)"
proof -
  let ?c = "\<lambda>r. Number_or_0 s2n (rating_rating r)"
  let ?h = "\<lambda>e. spec_rating_number s2n (stored (snd e) ''rating'')"
  from map_e_Inr [OF m] have a: "list_all2 (\<lambda>x y. rating_callback x = Inr y) es ratings" .
  then have len: "length ratings = length es" by (simp add: list_all2_lengthD)
  from a have rel: "list_all2 (\<lambda>x y. ?c y = ?h x) es ratings"
    by (rule list_all2_mono) (simp add: rating_callback_rating Number_or_0_spec)
  have smr: "\<forall>r \<in> set ratings. small_int B (?c r)"
  proof
    fix r assume "r \<in> set ratings"
    from list_all2_set2 [OF rel this] obtain e where "e \<in> set es" and "?c r = ?h e" by blast
    with sm show "small_int B (?c r)" by simp
  qed
  let ?K = "sum_list (map (\<lambda>r. \<lfloor>fin_value (?c r)\<rfloor>) ratings)"
  have bd': "\<bar>0::int\<bar> + int (length ratings) * B < 2 ^ 53" using bd len by simp
  from foldl_js_add_exact [OF smr bd']
  have f: "foldl (\<lambda>acc r. js_add acc (?c r)) (Fin 0) ratings = Fin (of_int ?K)"
    and kb: "\<bar>?K\<bar> \<le> int (length es) * B"
    using len by auto
  have "list_all2 (\<lambda>x y. fin_value (?c y) = fin_value (?h x)) es ratings"
    using rel by (rule list_all2_mono) simp
  from sum_list_all2 [OF this] sum_list_floor_small [OF smr]
  have K: "(of_int ?K :: rat) = sum_list (map (\<lambda>e. fin_value (?h e)) es)" by simp
  have n0: "0 < length es" using ne by simp
  have "\<bar>(of_int ?K :: rat) / of_nat (length es)\<bar> \<le> \<bar>of_int ?K\<bar>"
  proof -
    have "(1::rat) \<le> of_nat (length es)" using ne by (cases es) simp_all
    then have "\<bar>(of_int ?K :: rat)\<bar> / of_nat (length es) \<le> \<bar>of_int ?K\<bar> / 1"
      by (intro frac_le) simp_all
    then show ?thesis by simp
  qed
  also have "\<dots> = of_int \<bar>?K\<bar>" by simp
  also have "\<dots> \<le> of_int (2 ^ 53)"
  proof -
    have "\<bar>?K\<bar> \<le> 2 ^ 53" using kb bd by linarith
    then show ?thesis by (simp only: of_int_le_iff)
  qed
  finally have "\<bar>(of_int ?K :: rat) / of_nat (length es)\<bar> \<le> 2 ^ 53" by simp
  from round_double_finite [OF this] obtain y where
    y: "round_double (of_int ?K / of_nat (length es)) = Fin y" by blast
  have "calc_avgRating s2n ratings = Some (Fin y)"
    using n0 len y f by (simp add: calc_avgRating_def)
  with y K show ?thesis by simp
qed

lemma calc_avgRating_length:
  assumes "map_e rating_callback es = Inr ratings"
  shows "length ratings = length es" and "es = [] \<Longrightarrow> calc_avgRating s2n ratings = None"
proof -
  from map_e_Inr [OF assms] show l: "length ratings = length es" by (simp add: list_all2_lengthD)
  assume "es = []"
  with l show "calc_avgRating s2n ratings = None" by (simp add: calc_avgRating_def)
qed

subsection \<open>The admin key\<close>

lemma key_presented:
  "(str_truthy (str_or (str_or a b) c) \<and> str_or (str_or a b) c = Some K)
     \<longleftrightarrow> List.find (\<lambda>s. s \<noteq> []) (List.map_filter (\<lambda>x. x) [a, b, c]) = Some K"
  by (cases a; cases b; cases c) (auto simp: str_or_def str_truthy_def List.map_filter_simps)

lemma requireAdminKey_presented:
  "requireAdminKey w req = None \<longleftrightarrow> presented_key req = Some (ADMIN_API_KEY w)"
  unfolding requireAdminKey_def presented_key_def Let_def
  using key_presented [of "map_of (headers req) ''x-admin-api-key''"
      "map_of (headers req) ''x-admin-key''" "map_of (query req) ''key''" "ADMIN_API_KEY w"]
  by auto

lemma requireAdminKey_Some:
  "requireAdminKey w req = Some r \<Longrightarrow> r = Response 401 (ErrorBody ''Unauthorized'' None)"
  by (auto simp: requireAdminKey_def Let_def split: if_splits)

lemma get_drivers_not_401: "get_drivers w \<noteq> Some (Response 401 b, calls)"
  by (auto simp: get_drivers_def split: option.splits sum.splits prod.splits)

lemma delete_driver_not_401: "delete_driver w uid \<noteq> (Response 401 b, calls)"
  by (auto simp: delete_driver_def split: sum.splits)

lemma driver_details_not_401: "driver_details w req \<noteq> (Response 401 b, calls)"
  by (auto simp: driver_details_def split: option.splits sum.splits prod.splits)

subsection \<open>The listing loop\<close>

lemma listUsers_loop_chain:
  "page_chain w tok ps \<Longrightarrow>
   \<exists>calls'. listUsers_loop w tok users calls
              = Some (Inr (users @ concat (map (map list_item) ps)), calls')"
proof (induction arbitrary: users calls rule: page_chain.induct)
  case (last_page tok r)
  then show ?case by (subst listUsers_loop.simps) simp
next
  case (next_page tok r ps)
  from next_page.IH [of "users @ map list_item (lr_users r)" "calls @ [CallListUsers 1000 tok]"]
  obtain calls' where
    "listUsers_loop w (lr_pageToken r) (users @ map list_item (lr_users r))
        (calls @ [CallListUsers 1000 tok])
       = Some (Inr ((users @ map list_item (lr_users r)) @ concat (map (map list_item) ps)), calls')"
    by blast
  with next_page.hyps show ?case by (subst listUsers_loop.simps) simp
qed

lemma get_drivers_chain:
  assumes "page_chain w None pages"
  shows "map_option fst (get_drivers w)
           = Some (Response 200 (UsersBody (concat (map (map list_item) pages))))"
proof -
  from listUsers_loop_chain [OF assms, of "[]" "[]"] show ?thesis
    by (auto simp: get_drivers_def)
qed

lemma token_index_page_token: "token_index (page_token i) = i"
  by (simp add: token_index_def page_token_def)

lemma page_token_truthy: "str_truthy (page_token (Suc i))"
  by (simp add: str_truthy_def page_token_def)

lemma mock_chain:
  assumes "listUsers w = mock_listUsers pages"
  shows "i < length pages \<Longrightarrow> page_chain w (page_token i) (drop i pages)"
proof (induction "length pages - i" arbitrary: i)
  case 0
  then show ?case by simp
next
  case (Suc n)
  show ?case
  proof (cases "Suc i < length pages")
    case True
    let ?r = "\<lparr>lr_users = pages ! i, lr_pageToken = page_token (Suc i)\<rparr>"
    have r: "listUsers w 1000 (page_token i) = Inr ?r"
      using True by (simp add: assms mock_listUsers_def token_index_page_token)
    have "n = length pages - Suc i" using Suc.hyps(2) by simp
    from Suc.hyps(1) [OF this True] have "page_chain w (page_token (Suc i)) (drop (Suc i) pages)" .
    then have "page_chain w (lr_pageToken ?r) (drop (Suc i) pages)" by simp
    from page_chain.next_page [OF r _ this] have "page_chain w (page_token i) (lr_users ?r # drop (Suc i) pages)"
      by (simp add: page_token_truthy)
    then show ?thesis using Suc.prems by (simp add: Cons_nth_drop_Suc)
  next
    case False
    let ?r = "\<lparr>lr_users = pages ! i, lr_pageToken = None\<rparr>"
    have r: "listUsers w 1000 (page_token i) = Inr ?r"
      using False Suc.prems by (simp add: assms mock_listUsers_def token_index_page_token)
    from page_chain.last_page [OF r] have "page_chain w (page_token i) [lr_users ?r]"
      by (simp add: str_truthy_def)
    moreover have "drop i pages = [pages ! i]"
      using False Suc.prems by (metis Cons_nth_drop_Suc drop_all not_less)
    ultimately show ?thesis by simp
  qed
qed

lemma demo_chain: "page_chain demo_env None demo_pages"
proof -
  have l: "listUsers demo_env = mock_listUsers demo_pages" by (simp add: demo_env_def)
  have "0 < length demo_pages" by (simp add: demo_pages_def)
  from mock_chain [OF l this] show ?thesis by (simp add: page_token_def)
qed

lemma inj_list_item_mock: "inj (\<lambda>i. list_item (mock_user i))"
proof (rule injI)
  fix i j assume "list_item (mock_user i) = list_item (mock_user j)"
  then have "replicate (Suc i) CHR ''u'' = replicate (Suc j) CHR ''u''"
    by (simp add: list_item_def mock_user_def)
  then have "length (replicate (Suc i) CHR ''u'') = length (replicate (Suc j) CHR ''u'')"
    by (rule arg_cong)
  then show "i = j" by simp
qed

lemma demo_concat:
  "concat (map (map list_item) demo_pages) = map (\<lambda>i. list_item (mock_user i)) [0..<2037]"
proof -
  have "[0..<2037] = [0..<1000] @ [1000..<2000] @ [2000..<(2037::nat)]"
    using upt_add_eq_append [of 0 1000 1037] upt_add_eq_append [of 1000 2000 37]
    by (simp del: upt_rec_numeral)
  then show ?thesis by (simp add: demo_pages_def comp_def del: upt_rec_numeral)
qed

lemma demo_listing:
  "\<exists>users calls. get_drivers demo_env = Some (Response 200 (UsersBody users), calls)
      \<and> length users = 2037 \<and> distinct users"
proof -
  from get_drivers_chain [OF demo_chain] obtain calls where
    g: "get_drivers demo_env
         = Some (Response 200 (UsersBody (concat (map (map list_item) demo_pages))), calls)"
    by (cases "get_drivers demo_env") auto
  have "length (concat (map (map list_item) demo_pages)) = 2037"
    by (simp add: demo_concat del: upt_rec_numeral)
  moreover have "distinct (concat (map (map list_item) demo_pages))"
    unfolding demo_concat
    by (rule distinct_map [THEN iffD2]) (simp add: inj_on_subset [OF inj_list_item_mock] del: upt_rec_numeral)
  ultimately show ?thesis using g by blast
qed

lemma demo_page_sizes: "map length demo_pages = [1000, 1000, 37]"
  by (simp add: demo_pages_def del: upt_rec_numeral)

section \<open>The test data, evaluated\<close>

lemma lower_AB: "str_toLowerCase ''A@B.com'' = ''a@b.com''"
  by code_simp

lemma lower_AB2: "str_toLowerCase ''A@B.COM'' = ''a@b.com''"
  by code_simp

lemma lower_ab: "str_toLowerCase ''a@b.com'' = ''a@b.com''"
  by code_simp

lemma lower_cd: "str_toLowerCase ''c@d.com'' = ''c@d.com''"
  by code_simp

lemma lower_Nil: "str_toLowerCase [] = []"
  by (simp add: str_toLowerCase_def)

lemmas demo_delivery_defs =
  delivery_d1_def delivery_d2_def delivery_d3_def delivery_d4_def delivery_d5_def delivery_d6_def

lemmas demo_lower = lower_AB lower_AB2 lower_ab lower_cd lower_Nil

lemma demo_loads_drv1: "loads_forEach user_A ''drv1'' demo_entries [] = Inr (ds_loads demo_summary)"
  by (simp add: load_callback_def bind_e_def js_or_def user_A_def demo_summary_def
      demo_entries_def demo_delivery_defs demo_lower)

lemma demo_ratings_drv1: "map_e rating_callback demo_rating_entries = Inr (ds_ratings demo_summary)"
  by (simp add: rating_callback_def bind_e_def js_or_def demo_summary_def demo_rating_entries_def)

lemma demo_getUser:
  "getUser demo_env ''drv1'' = Inr user_A"
  "getUser demo_env ''drv2'' = Inr user_noemail"
  "getUser demo_env ''drv3'' = Inr user_C"
  by (simp_all add: demo_env_def)

lemma demo_once_deliveries: "once_value demo_env [''deliveries''] = Inr demo_deliveries"
  by (simp add: demo_env_def demo_db_def)

lemma demo_deliveries_entries: "object_entries (js_or demo_deliveries (JObj [])) = Inr demo_entries"
  by (simp add: js_or_def demo_deliveries_def)

lemma demo_once_ratings: "once_value demo_env [''driverRatings'', ''drv1''] = Inr demo_ratings"
  by (simp add: demo_env_def demo_db_def)

lemma demo_ratings_entries: "object_entries (js_or demo_ratings (JObj [])) = Inr demo_rating_entries"
  by (simp add: js_or_def demo_ratings_def)

lemma demo_avgRating:
  "json_number (calc_avgRating (stringToNumber demo_env) (ds_ratings demo_summary))
     = Some (6004799503160661 / 2251799813685248)"
proof -
  have r5: "round_double 5 = Fin 5" using round_double_int [of 5] by simp
  have r8: "round_double 8 = Fin 8" using round_double_int [of 8] by simp
  show ?thesis
    by (simp add: calc_avgRating_def Number_or_0_def demo_summary_def r5 r8 round_double_8_3)
qed

lemma huge_double: "round_double huge = Fin huge"
proof (rule round_double_exact [of _ 1 1023])
  show "huge = of_int 1 * 2 powi 1023" by (simp add: huge_def)
  show "\<bar>1::int\<bar> < 2 ^ 53" by simp
  show "- 1074 \<le> (1023::int)" by simp
  show "\<bar>huge\<bar> < 2 powi 1024" by (simp add: huge_def)
qed

lemma huge_overflow: "round_double (huge + huge) = PosInf"
  by (rule round_double_overflow) (simp add: huge_def)

lemma huge_nonzero: "huge \<noteq> 0"
  by (simp add: huge_def)

lemma huge_avgRating: "json_number (calc_avgRating s2n huge_ratings) = None"
proof -
  have n: "Number_or_0 s2n (JNum huge) = Fin huge"
    by (simp add: Number_or_0_def huge_nonzero)
  have s1: "js_add (Fin 0) (Fin huge) = Fin huge"
    using huge_double by simp
  have s2: "js_add (Fin huge) (Fin huge) = PosInf"
    using huge_overflow by (simp only: js_add.simps)
  have "foldl (\<lambda>acc r. js_add acc (Number_or_0 s2n (rating_rating r))) (Fin 0) huge_ratings = PosInf"
    unfolding huge_ratings_def by (simp only: foldl_Cons foldl_Nil ratingOut.simps n s1 s2)
  then show ?thesis by (simp add: calc_avgRating_def huge_ratings_def)
qed

lemma demo_loads_drv3: "loads_forEach user_C ''drv3'' demo_entries [] = Inr []"
  by (simp add: load_callback_def bind_e_def js_or_def user_C_def demo_entries_def
      demo_delivery_defs demo_lower)

lemma huge_drv3:
  "driver_details huge_env (demo_request ''drv3'')
     = (Response 200 (SummaryBody
          \<lparr>ds_user = user_out user_C, ds_loads = [], ds_tickets = [], ds_ratings = huge_ratings,
           ds_stats = \<lparr>totalLoads = 0, totalTickets = 0, totalRatings = 2, avgRating = None\<rparr>\<rparr>),
        demo_calls ''drv3'')"
proof -
  have g: "getUser huge_env ''drv3'' = Inr user_C" by (simp add: huge_env_def demo_env_def)
  have d: "once_value huge_env [''deliveries''] = Inr demo_deliveries"
    by (simp add: huge_env_def demo_db_def)
  have t: "once_value huge_env [''scaleTickets'', ''drv3''] = Inr JNull"
    by (simp add: huge_env_def demo_db_def)
  have te: "map_e ticket_callback [] = Inr []" by simp
  have r: "once_value huge_env [''driverRatings'', ''drv3''] = Inr (JObj huge_rating_entries)"
    by (simp add: huge_env_def)
  have re: "object_entries (js_or (JObj huge_rating_entries) (JObj [])) = Inr huge_rating_entries"
    by (simp add: js_or_def)
  have rm: "map_e rating_callback huge_rating_entries = Inr huge_ratings"
    by (simp add: rating_callback_def bind_e_def js_or_def huge_rating_entries_def
        huge_ratings_def huge_nonzero)
  have n: "length huge_ratings = 2" by (simp add: huge_ratings_def)
  from driver_details_try_ok [OF g d demo_deliveries_entries demo_loads_drv3 t absent_partition
      te r re rm]
  show ?thesis
    by (simp add: driver_details_def demo_request_def demo_calls_def huge_avgRating n)
qed

lemma demo_drv1:
  "driver_details demo_env (demo_request ''drv1'')
     = (Response 200 (SummaryBody demo_summary), demo_calls ''drv1'')"
proof -
  have t: "once_value demo_env [''scaleTickets'', ''drv1''] = Inr JNull"
    by (simp add: demo_env_def demo_db_def)
  have te: "map_e ticket_callback [] = Inr []" by simp
  have u: "user_out user_A = ds_user demo_summary"
    by (simp add: user_out_def user_A_def demo_summary_def str_or_def str_truthy_def)
  have a: "json_number (calc_avgRating (stringToNumber demo_env) (ds_ratings demo_summary))
             = Some (6004799503160661 / 2251799813685248)"
    by (simp add: demo_avgRating)
  from driver_details_try_ok [OF demo_getUser(1) demo_once_deliveries demo_deliveries_entries
      demo_loads_drv1 t absent_partition te demo_once_ratings demo_ratings_entries
      demo_ratings_drv1]
  show ?thesis
    by (simp add: driver_details_def demo_request_def u a demo_calls_def)
       (simp add: demo_summary_def)
qed

lemma demo_pages_length: "length demo_pages = 3"
  by (simp add: demo_pages_def)

lemma demo_pages_concat:
  "concat (map (map list_item) demo_pages)
     = map list_item (demo_pages ! 0) @ map list_item (demo_pages ! Suc 0)
       @ map list_item (demo_pages ! Suc (Suc 0))"
  by (simp add: demo_pages_def del: upt_rec_numeral)

lemma demo_mock_pages:
  "listUsers demo_env 1000 None
     = Inr \<lparr>lr_users = demo_pages ! 0, lr_pageToken = page_token (Suc 0)\<rparr>"
  "listUsers demo_env 1000 (page_token (Suc 0))
     = Inr \<lparr>lr_users = demo_pages ! Suc 0, lr_pageToken = page_token (Suc (Suc 0))\<rparr>"
  "listUsers demo_env 1000 (page_token (Suc (Suc 0)))
     = Inr \<lparr>lr_users = demo_pages ! Suc (Suc 0), lr_pageToken = None\<rparr>"
  by (simp_all add: demo_env_def mock_listUsers_def token_index_def page_token_def
      demo_pages_length)

lemma demo_loop_calls:
  "get_drivers demo_env
     = Some (Response 200 (UsersBody (concat (map (map list_item) demo_pages))),
             [CallListUsers 1000 None, CallListUsers 1000 (page_token (Suc 0)),
              CallListUsers 1000 (page_token (Suc (Suc 0)))])"
proof -
  have t: "str_truthy (page_token (Suc 0))" "str_truthy (page_token (Suc (Suc 0)))" "\<not> str_truthy None"
    by (simp_all add: str_truthy_def page_token_def)
  have l3: "listUsers_loop demo_env (page_token (Suc (Suc 0)))
              (map list_item (demo_pages ! 0) @ map list_item (demo_pages ! Suc 0))
              [CallListUsers 1000 None, CallListUsers 1000 (page_token (Suc 0))]
        = Some (Inr (concat (map (map list_item) demo_pages)),
             [CallListUsers 1000 None, CallListUsers 1000 (page_token (Suc 0)),
              CallListUsers 1000 (page_token (Suc (Suc 0)))])"
    by (subst listUsers_loop.simps) (simp add: demo_mock_pages t demo_pages_concat)
  have l2: "listUsers_loop demo_env (page_token (Suc 0)) (map list_item (demo_pages ! 0))
              [CallListUsers 1000 None]
        = Some (Inr (concat (map (map list_item) demo_pages)),
             [CallListUsers 1000 None, CallListUsers 1000 (page_token (Suc 0)),
              CallListUsers 1000 (page_token (Suc (Suc 0)))])"
    by (subst listUsers_loop.simps) (simp add: demo_mock_pages t l3)
  have l1: "listUsers_loop demo_env None [] []
        = Some (Inr (concat (map (map list_item) demo_pages)),
             [CallListUsers 1000 None, CallListUsers 1000 (page_token (Suc 0)),
              CallListUsers 1000 (page_token (Suc (Suc 0)))])"
    by (subst listUsers_loop.simps) (simp add: demo_mock_pages t l2)
  then show ?thesis by (simp add: get_drivers_def)
qed

section \<open>The claims\<close>

text \<open>C1: when the identity lookup reports the record absent, GET /driver-details
  should answer 404. Here it answers 500: the \<open>catch\<close> of the handler does not look at
  the error's code, while the lookup of the earlier revision answers 404 for the same
  adapter error.\<close>

theorem C1_driver_details_absent_identity_500:
  "getUser demo_env ''ghost'' = Inl not_found
   \<and> code not_found = Some ''auth/user-not-found''
   \<and> app demo_env GET_driver_details (demo_request ''ghost'')
       = Some (Response 500 (ErrorBody ''Failed to load driver details'' (Some (message not_found))),
               [CallGetUser ''ghost''])
   \<and> status_of (fst (get_driver_by_uid demo_env ''ghost'')) = 404"
proof -
  have c: "code not_found = Some ''auth/user-not-found''" by (simp add: not_found_def)
  have "status_of (fst (get_driver_by_uid demo_env ''ghost'')) = 404"
    using demo_ghost_absent c by (simp add: get_driver_by_uid_def)
  then show ?thesis using demo_ghost_absent demo_ghost_details c by simp
qed

text \<open>C2: whenever GET /driver-details answers with a summary, the ids of its loads
  are the ids of exactly those delivery records that match the driver by email
  (case-insensitively) or by the assigned driver id (read from
  \<open>details.assignedDriverUid\<close>), in the order of the collection, each once. The
  identity's email, when set, is a non-empty string. A stored record whose two
  assignment fields are both missing is passed over without an error, and the scan of
  records typed as the data model types them never raises.\<close>

theorem C2_loads_exactly_matching_deliveries:
  assumes "driver_details w req = (Response 200 (SummaryBody s), calls)"
    and "map_of (query req) ''uid'' = Some uid"
    and "getUser w uid = Inr u"
    and "u_email u \<noteq> Some []"
    and "once_value w [''deliveries''] = Inr dv"
    and "object_entries (js_or dv (JObj [])) = Inr es"
  shows "map load_id (ds_loads s) = map fst (filter (\<lambda>e. spec_matches u uid (snd e)) es)
     \<and> (obj \<noteq> JUndefined \<and> obj \<noteq> JNull
          \<and> delivery_field obj ''assignedDriverEmail'' = JUndefined
          \<and> delivery_field obj ''assignedDriverUid'' = JUndefined
          \<longrightarrow> load_callback u uid id' obj loads = Inr loads)
     \<and> ((\<forall>e \<in> set es'. delivery_ok (snd e))
          \<longrightarrow> (\<exists>ls. loads_forEach u uid es' [] = Inr ls))"
proof -
  from loads_of_summary [OF assms(1,2,3,5,6)]
  have uid: "uid \<noteq> []" and ok: "\<forall>e \<in> set es. delivery_ok (snd e)"
    and l: "ds_loads s = map (\<lambda>e. load_of (fst e) (snd e))
                           (filter (\<lambda>e. code_matches u uid (snd e)) es)"
    by auto
  have "filter (\<lambda>e. code_matches u uid (snd e)) es = filter (\<lambda>e. spec_matches u uid (snd e)) es"
    by (rule filter_cong_set) (use ok uid assms(4) in \<open>simp add: code_matches_spec\<close>)
  with l have ids: "map load_id (ds_loads s)
      = map fst (filter (\<lambda>e. spec_matches u uid (snd e)) es)"
    by (simp add: load_of_def comp_def)
  have missing: "obj \<noteq> JUndefined \<and> obj \<noteq> JNull
          \<and> delivery_field obj ''assignedDriverEmail'' = JUndefined
          \<and> delivery_field obj ''assignedDriverUid'' = JUndefined
          \<longrightarrow> load_callback u uid id' obj loads = Inr loads"
    by (auto simp: load_callback_ok delivery_ok_def both_missing_no_match)
  have total: "(\<forall>e \<in> set es'. delivery_ok (snd e))
          \<longrightarrow> (\<exists>ls. loads_forEach u uid es' [] = Inr ls)"
    by (simp add: loads_forEach_ok)
  from ids missing total show ?thesis by blast
qed

theorem C2_loads_exactly_matching_deliveries_witness:
  "driver_details demo_env (demo_request ''drv1'')
     = (Response 200 (SummaryBody demo_summary), demo_calls ''drv1'')
   \<and> u_email user_A = Some ''A@B.com''
   \<and> map fst (filter (\<lambda>e. spec_matches user_A ''drv1'' (snd e)) demo_entries) = [''d1'', ''d2'']
   \<and> map load_id (ds_loads demo_summary) = [''d1'', ''d2'']
   \<and> load_callback user_A ''drv1'' ''d3'' delivery_d3 [] = Inr []
   \<and> list_all (\<lambda>e. delivery_ok (snd e)) demo_entries
   \<and> loads_forEach user_A ''drv1'' demo_entries [] = Inr (ds_loads demo_summary)"
proof -
  have e: "u_email user_A \<noteq> Some []" by (simp add: user_A_def)
  have m: "map fst (filter (\<lambda>e. spec_matches user_A ''drv1'' (snd e)) demo_entries) = [''d1'', ''d2'']"
    by (simp add: spec_matches_def delivery_field_def demo_entries_def demo_delivery_defs
        user_A_def demo_lower)
  have d3: "delivery_d3 \<noteq> JUndefined \<and> delivery_d3 \<noteq> JNull
          \<and> delivery_field delivery_d3 ''assignedDriverEmail'' = JUndefined
          \<and> delivery_field delivery_d3 ''assignedDriverUid'' = JUndefined"
    by (simp add: delivery_d3_def delivery_field_def)
  have ok: "list_all (\<lambda>e. delivery_ok (snd e)) demo_entries"
    by (simp add: delivery_ok_def delivery_field_def demo_entries_def demo_delivery_defs)
  from C2_loads_exactly_matching_deliveries [OF demo_drv1 demo_query_uid demo_getUser(1) e
      demo_once_deliveries demo_deliveries_entries, of delivery_d3 "''d3''" "[]" demo_entries]
    m d3 ok demo_drv1 demo_loads_drv1
  show ?thesis by (simp add: user_A_def)
qed

text \<open>C3 as stated fails: with two ratings of \<open>2^1023\<close> in the driver's partition
  the sum overflows to Infinity, which the response carries as \<open>null\<close>, although the
  partition contributes two ratings; and for ratings 5, 3 and a missing one the answer
  is the double nearest to 8/3, not 8/3.\<close>

theorem C3_avgRating_null_with_two_ratings:
  "map (\<lambda>e. stored (snd e) ''rating'') huge_rating_entries = [JNum (2 ^ 1023), JNum (2 ^ 1023)]
   \<and> driver_details huge_env (demo_request ''drv3'')
     = (Response 200 (SummaryBody
          \<lparr>ds_user = user_out user_C, ds_loads = [], ds_tickets = [], ds_ratings = huge_ratings,
           ds_stats = \<lparr>totalLoads = 0, totalTickets = 0, totalRatings = 2, avgRating = None\<rparr>\<rparr>),
        demo_calls ''drv3'')
   \<and> map (\<lambda>e. stored (snd e) ''rating'') demo_rating_entries = [JNum 5, JNum 3, JUndefined]
   \<and> driver_details demo_env (demo_request ''drv1'')
     = (Response 200 (SummaryBody demo_summary), demo_calls ''drv1'')
   \<and> avgRating (ds_stats demo_summary) \<noteq> Some (8 / 3)"
proof -
  have a: "map (\<lambda>e. stored (snd e) ''rating'') huge_rating_entries
             = [JNum (2 ^ 1023), JNum (2 ^ 1023)]"
    by (simp add: huge_rating_entries_def huge_def)
  have b: "map (\<lambda>e. stored (snd e) ''rating'') demo_rating_entries = [JNum 5, JNum 3, JUndefined]"
    by (simp add: demo_rating_entries_def)
  have c: "avgRating (ds_stats demo_summary) \<noteq> Some (8 / 3)"
    by (simp add: demo_summary_def)
  from a b c huge_drv3 demo_drv1 show ?thesis by blast
qed

text \<open>C3, amended: whenever GET /driver-details answers with a summary and every
  rating's value, coerced to a number and counted as 0 when it is missing or not a
  number, is an integer of magnitude at most \<open>B\<close>, with the number of ratings times
  \<open>B\<close> below \<open>2^53\<close> (ratings 1 to 5 or missing, as the data model types them, with
  \<open>B = 5\<close>): \<open>stats.avgRating\<close> is \<open>null\<close> exactly when the rating partition has
  no entry; otherwise it is the double nearest to the arithmetic mean, the exact sum of
  these numbers divided by the number of entries. A numeric rating contributes its
  value; ratings 5, 3 and a missing one give the double nearest to 8/3.\<close>

theorem C3_avgRating_is_rounded_mean_of_small_integers:
  assumes "driver_details w req = (Response 200 (SummaryBody s), calls)"
    and "map_of (query req) ''uid'' = Some uid"
    and "once_value w [''driverRatings'', uid] = Inr rv"
    and "object_entries (js_or rv (JObj [])) = Inr es"
    and "\<forall>e \<in> set es.
           small_int B (spec_rating_number (stringToNumber w) (stored (snd e) ''rating''))"
    and "int (length es) * B < 2 ^ 53"
  shows "(avgRating (ds_stats s) = None \<longleftrightarrow> es = [])
     \<and> (es \<noteq> [] \<longrightarrow>
          (\<exists>y. round_double
                  (sum_list (map (\<lambda>e. fin_value (spec_rating_number (stringToNumber w)
                                                   (stored (snd e) ''rating''))) es)
                   / of_nat (length es)) = Fin y
              \<and> avgRating (ds_stats s) = Some y))
     \<and> totalRatings (ds_stats s) = length es
     \<and> spec_rating_number s2n (JNum x) = Fin x
     \<and> spec_rating_number s2n JUndefined = Fin 0
     \<and> spec_rating_number s2n JNull = Fin 0
     \<and> (Number s2n v = NaN \<longrightarrow> spec_rating_number s2n v = Fin 0)"
proof -
  from driver_details_200 [OF assms(1)] assms(2)
  have t: "driver_details_try w uid = (Inr s, calls)" by auto
  from driver_details_try_Inr [OF t] assms(3,4)
  have m: "map_e rating_callback es = Inr (ds_ratings s)"
    and st: "ds_stats s = \<lparr>totalLoads = length (ds_loads s), totalTickets = length (ds_tickets s),
                      totalRatings = length (ds_ratings s),
                      avgRating = json_number (calc_avgRating (stringToNumber w) (ds_ratings s))\<rparr>"
    by auto
  from st have av: "avgRating (ds_stats s)
      = json_number (calc_avgRating (stringToNumber w) (ds_ratings s))"
    and tr: "totalRatings (ds_stats s) = length (ds_ratings s)"
    by simp_all
  have len: "totalRatings (ds_stats s) = length es"
    using tr calc_avgRating_length(1) [OF m] by simp
  have empty: "es = [] \<Longrightarrow> avgRating (ds_stats s) = None"
    using av calc_avgRating_length(2) [OF m, of "stringToNumber w"] by simp
  have full: "es \<noteq> [] \<Longrightarrow>
          (\<exists>y. round_double
                  (sum_list (map (\<lambda>e. fin_value (spec_rating_number (stringToNumber w)
                                                   (stored (snd e) ''rating''))) es)
                   / of_nat (length es)) = Fin y
              \<and> avgRating (ds_stats s) = Some y)"
  proof -
    assume ne: "es \<noteq> []"
    from calc_avgRating_small [OF m assms(5,6) ne] obtain y where
      "round_double
         (sum_list (map (\<lambda>e. fin_value (spec_rating_number (stringToNumber w)
                                          (stored (snd e) ''rating''))) es)
          / of_nat (length es)) = Fin y"
      and "calc_avgRating (stringToNumber w) (ds_ratings s) = Some (Fin y)"
      by blast
    with av show ?thesis by simp
  qed
  have iff: "avgRating (ds_stats s) = None \<longleftrightarrow> es = []"
    using empty full by (cases "es = []") auto
  have facts: "spec_rating_number s2n (JNum x) = Fin x
     \<and> spec_rating_number s2n JUndefined = Fin 0
     \<and> spec_rating_number s2n JNull = Fin 0
     \<and> (Number s2n v = NaN \<longrightarrow> spec_rating_number s2n v = Fin 0)"
    by (simp add: spec_rating_number_def)
  from iff full len facts show ?thesis by blast
qed

theorem C3_avgRating_is_rounded_mean_of_small_integers_witness:
  "driver_details demo_env (demo_request ''drv1'')
     = (Response 200 (SummaryBody demo_summary), demo_calls ''drv1'')
   \<and> map (\<lambda>e. stored (snd e) ''rating'') demo_rating_entries = [JNum 5, JNum 3, JUndefined]
   \<and> list_all (\<lambda>e. small_int 5 (spec_rating_number (stringToNumber demo_env)
                                    (stored (snd e) ''rating''))) demo_rating_entries
   \<and> int (length demo_rating_entries) * 5 < 2 ^ 53
   \<and> sum_list (map (\<lambda>e. fin_value (spec_rating_number (stringToNumber demo_env)
                                      (stored (snd e) ''rating''))) demo_rating_entries)
       / of_nat (length demo_rating_entries) = 8 / 3
   \<and> round_double (8 / 3) = Fin (6004799503160661 / 2251799813685248)
   \<and> avgRating (ds_stats demo_summary) = Some (6004799503160661 / 2251799813685248)
   \<and> totalRatings (ds_stats demo_summary) = 3"
proof -
  have r: "map (\<lambda>e. stored (snd e) ''rating'') demo_rating_entries = [JNum 5, JNum 3, JUndefined]"
    by (simp add: demo_rating_entries_def)
  have la: "list_all (\<lambda>e. small_int 5 (spec_rating_number (stringToNumber demo_env)
                                    (stored (snd e) ''rating''))) demo_rating_entries"
    by (simp add: demo_rating_entries_def spec_rating_number_def)
  then have sm: "\<forall>e \<in> set demo_rating_entries.
      small_int 5 (spec_rating_number (stringToNumber demo_env) (stored (snd e) ''rating''))"
    by (simp add: list_all_iff)
  have bd: "int (length demo_rating_entries) * 5 < 2 ^ 53"
    by (simp add: demo_rating_entries_def)
  have mean: "sum_list (map (\<lambda>e. fin_value (spec_rating_number (stringToNumber demo_env)
                                      (stored (snd e) ''rating''))) demo_rating_entries)
       / of_nat (length demo_rating_entries) = 8 / 3"
    by (simp add: demo_rating_entries_def spec_rating_number_def)
  from C3_avgRating_is_rounded_mean_of_small_integers [OF demo_drv1 demo_query_uid
      demo_once_ratings demo_ratings_entries sm bd]
  have ex: "demo_rating_entries \<noteq> [] \<longrightarrow>
          (\<exists>y. round_double (8 / 3) = Fin y \<and> avgRating (ds_stats demo_summary) = Some y)"
    and tot: "totalRatings (ds_stats demo_summary) = length demo_rating_entries"
    unfolding mean by blast+
  have ne: "demo_rating_entries \<noteq> []" by (simp add: demo_rating_entries_def)
  with ex obtain y where y: "round_double (8 / 3) = Fin y"
    and ay: "avgRating (ds_stats demo_summary) = Some y"
    by blast
  from y round_double_8_3 have "y = 6004799503160661 / 2251799813685248" by simp
  with ay have av: "avgRating (ds_stats demo_summary)
      = Some (6004799503160661 / 2251799813685248)"
    by simp
  have tot3: "totalRatings (ds_stats demo_summary) = 3"
    using tot by (simp add: demo_rating_entries_def)
  from demo_drv1 r la bd mean round_double_8_3 av tot3 show ?thesis by blast
qed

text \<open>C4 as stated fails: a delivery that stores \<open>yardsDelivered\<close> is projected
  with \<open>yards\<close> 0; the scan reads the field \<open>details.yards\<close>.\<close>

theorem C4_yardsDelivered_not_carried:
  "delivery_field delivery_d4 ''yardsDelivered'' = JNum 12
   \<and> load_callback user_noemail ''drv2'' ''d4'' delivery_d4 []
       = Inr [\<lparr>load_id = ''d4'', load_status = JStr ''pending'', load_customerName = JStr [],
               load_address = JStr [], load_items = JStr [], load_yards = JNum 0,
               load_revenue = JNum 0, load_profit = JNum 0, load_createdAt = JNull\<rparr>]"
  by (simp add: delivery_field_def delivery_d4_def load_callback_def bind_e_def js_or_def
      user_noemail_def lower_Nil)

text \<open>C4, amended: for every delivery the scan includes, the pushed load summary
  carries the numeric fields \<open>yards\<close> (read from \<open>details.yards\<close>), \<open>revenue\<close> and
  \<open>profit\<close> as the stored number when present and 0 when absent, the string fields
  \<open>customerName\<close>, \<open>address\<close> and \<open>items\<close> as the stored string when present and
  the empty string when absent, \<open>createdAt\<close> as \<open>null\<close> when absent; no field of
  the projection is \<open>undefined\<close>.\<close>

theorem C4_load_projection_defaults:
  assumes "load_callback u uid id' obj loads = Inr loads'" and "loads' \<noteq> loads"
  shows "\<exists>l. loads' = loads @ [l] \<and> load_id l = id'
     \<and> (is_JNum (delivery_field obj ''yards'') \<or> delivery_field obj ''yards'' = JUndefined
          \<longrightarrow> carried (delivery_field obj ''yards'') (JNum 0) (load_yards l))
     \<and> (is_JNum (delivery_field obj ''revenue'') \<or> delivery_field obj ''revenue'' = JUndefined
          \<longrightarrow> carried (delivery_field obj ''revenue'') (JNum 0) (load_revenue l))
     \<and> (is_JNum (delivery_field obj ''profit'') \<or> delivery_field obj ''profit'' = JUndefined
          \<longrightarrow> carried (delivery_field obj ''profit'') (JNum 0) (load_profit l))
     \<and> (is_JStr (delivery_field obj ''customerName'')
          \<or> delivery_field obj ''customerName'' = JUndefined
          \<longrightarrow> carried (delivery_field obj ''customerName'') (JStr []) (load_customerName l))
     \<and> (is_JStr (delivery_field obj ''address'') \<or> delivery_field obj ''address'' = JUndefined
          \<longrightarrow> carried (delivery_field obj ''address'') (JStr []) (load_address l))
     \<and> (is_JStr (delivery_field obj ''items'') \<or> delivery_field obj ''items'' = JUndefined
          \<longrightarrow> carried (delivery_field obj ''items'') (JStr []) (load_items l))
     \<and> (stored obj ''createdAt'' = JUndefined \<longrightarrow> load_createdAt l = JNull)
     \<and> load_status l \<noteq> JUndefined \<and> load_customerName l \<noteq> JUndefined
     \<and> load_address l \<noteq> JUndefined \<and> load_items l \<noteq> JUndefined
     \<and> load_yards l \<noteq> JUndefined \<and> load_revenue l \<noteq> JUndefined
     \<and> load_profit l \<noteq> JUndefined \<and> load_createdAt l \<noteq> JUndefined"
proof -
  from assms(1) have ok: "delivery_ok obj" by (rule load_callback_Inr)
  from assms load_callback_ok [OF ok, of u uid id' loads]
  have l: "loads' = loads @ [load_of id' obj]" by (auto split: if_splits)
  show ?thesis
  proof (intro exI conjI impI)
    show "loads' = loads @ [load_of id' obj]" by (rule l)
  qed (simp_all add: load_of_def js_or_defined carried_num carried_str, simp add: js_or_def)
qed

theorem C4_load_projection_defaults_witness:
  "load_callback user_A ''drv1'' ''d1'' delivery_d1 [] = Inr [hd (ds_loads demo_summary)]
   \<and> delivery_field delivery_d1 ''revenue'' = JNum 120
   \<and> load_revenue (hd (ds_loads demo_summary)) = JNum 120
   \<and> delivery_field delivery_d1 ''yards'' = JUndefined
   \<and> load_yards (hd (ds_loads demo_summary)) = JNum 0
   \<and> delivery_field delivery_d1 ''customerName'' = JStr ''Ann''
   \<and> load_customerName (hd (ds_loads demo_summary)) = JStr ''Ann''
   \<and> delivery_field delivery_d1 ''address'' = JUndefined
   \<and> load_address (hd (ds_loads demo_summary)) = JStr []
   \<and> carried (delivery_field delivery_d1 ''profit'') (JNum 0)
        (load_profit (hd (ds_loads demo_summary)))"
proof -
  have c: "load_callback user_A ''drv1'' ''d1'' delivery_d1 [] = Inr [hd (ds_loads demo_summary)]"
    by (simp add: load_callback_def bind_e_def js_or_def user_A_def demo_summary_def
        delivery_d1_def demo_lower)
  have n: "[hd (ds_loads demo_summary)] \<noteq> []" by simp
  have f: "delivery_field delivery_d1 ''profit'' = JUndefined"
    by (simp add: delivery_field_def delivery_d1_def)
  from C4_load_projection_defaults [OF c n] c f show ?thesis
    by (simp add: delivery_field_def delivery_d1_def demo_summary_def)
qed

text \<open>C5: deleting a driver id whose identity record does not exist should answer
  404. Here DELETE /drivers/:uid answers 500: its \<open>catch\<close> does not look at the
  error's code, while the lookup of the earlier revision answers 404 for the same
  adapter error.\<close>

theorem C5_delete_absent_driver_500:
  "deleteUser demo_env ''ghost'' = Inl not_found
   \<and> code not_found = Some ''auth/user-not-found''
   \<and> app demo_env (DELETE_drivers_uid ''ghost'') (demo_request ''ghost'')
       = Some (Response 500 (ErrorBody ''Failed to delete user'' None), [CallDeleteUser ''ghost''])
   \<and> status_of (fst (get_driver_by_uid demo_env ''ghost'')) = 404"
proof -
  have d: "deleteUser demo_env ''ghost'' = Inl not_found" by (simp add: demo_env_def)
  have c: "code not_found = Some ''auth/user-not-found''" by (simp add: not_found_def)
  have a: "app demo_env (DELETE_drivers_uid ''ghost'') (demo_request ''ghost'')
       = Some (Response 500 (ErrorBody ''Failed to delete user'' None), [CallDeleteUser ''ghost''])"
    using d by (simp add: app_def demo_admitted delete_driver_def)
  have g: "status_of (fst (get_driver_by_uid demo_env ''ghost'')) = 404"
    using demo_ghost_absent c by (simp add: get_driver_by_uid_def)
  from d c a g show ?thesis by blast
qed

text \<open>C6: for a driver whose identity record exists, when no delivery record matches
  the driver and the ticket and rating partitions are absent, GET /driver-details
  answers 200 with empty loads, tickets and ratings, all three counts 0 and
  \<open>avgRating\<close> \<open>null\<close>.\<close>

theorem C6_summary_of_driver_without_records:
  assumes "map_of (query req) ''uid'' = Some uid" and "uid \<noteq> []"
    and "getUser w uid = Inr u"
    and "once_value w [''deliveries''] = Inr dv"
    and "object_entries (js_or dv (JObj [])) = Inr es"
    and "\<forall>e \<in> set es. delivery_ok (snd e) \<and> \<not> spec_matches u uid (snd e)"
    and "once_value w [''scaleTickets'', uid] = Inr JNull"
    and "once_value w [''driverRatings'', uid] = Inr JNull"
  shows "driver_details w req =
    (Response 200 (SummaryBody
       \<lparr>ds_user = user_out u, ds_loads = [], ds_tickets = [], ds_ratings = [],
        ds_stats = \<lparr>totalLoads = 0, totalTickets = 0, totalRatings = 0, avgRating = None\<rparr>\<rparr>),
     [CallGetUser uid, CallOnce [''deliveries''], CallOnce [''scaleTickets'', uid],
      CallOnce [''driverRatings'', uid]])"
proof -
  have ok: "\<forall>e \<in> set es. delivery_ok (snd e)" using assms(6) by simp
  have "filter (\<lambda>e. code_matches u uid (snd e)) es = []"
    using assms(6) assms(2) by (auto simp: filter_empty_conv dest: code_matches_imp_spec)
  with loads_forEach_ok [OF ok, of u uid "[]"]
  have l: "loads_forEach u uid es [] = Inr []" by simp
  have t: "map_e ticket_callback [] = Inr []" and r: "map_e rating_callback [] = Inr []"
    by simp_all
  from driver_details_try_ok [OF assms(3,4,5) l assms(7) absent_partition t assms(8)
      absent_partition r]
  show ?thesis using assms(1,2) by (simp add: driver_details_def calc_avgRating_def)
qed

theorem C6_summary_of_driver_without_records_witness:
  "getUser demo_env ''drv3'' = Inr user_C
   \<and> list_all (\<lambda>e. delivery_ok (snd e) \<and> \<not> spec_matches user_C ''drv3'' (snd e)) demo_entries
   \<and> once_value demo_env [''scaleTickets'', ''drv3''] = Inr JNull
   \<and> once_value demo_env [''driverRatings'', ''drv3''] = Inr JNull
   \<and> driver_details demo_env (demo_request ''drv3'') =
      (Response 200 (SummaryBody
         \<lparr>ds_user = user_out user_C, ds_loads = [], ds_tickets = [], ds_ratings = [],
          ds_stats = \<lparr>totalLoads = 0, totalTickets = 0, totalRatings = 0, avgRating = None\<rparr>\<rparr>),
       [CallGetUser ''drv3'', CallOnce [''deliveries''], CallOnce [''scaleTickets'', ''drv3''],
        CallOnce [''driverRatings'', ''drv3'']])"
proof -
  have n: "''drv3'' \<noteq> []" by simp
  have a: "list_all (\<lambda>e. delivery_ok (snd e) \<and> \<not> spec_matches user_C ''drv3'' (snd e)) demo_entries"
    by (simp add: delivery_ok_def spec_matches_def delivery_field_def demo_entries_def
        demo_delivery_defs user_C_def demo_lower)
  then have b: "\<forall>e \<in> set demo_entries.
      delivery_ok (snd e) \<and> \<not> spec_matches user_C ''drv3'' (snd e)"
    by (simp add: list_all_iff)
  have t: "once_value demo_env [''scaleTickets'', ''drv3''] = Inr JNull"
    by (simp add: demo_env_def demo_db_def)
  have r: "once_value demo_env [''driverRatings'', ''drv3''] = Inr JNull"
    by (simp add: demo_env_def demo_db_def)
  from C6_summary_of_driver_without_records [OF demo_query_uid n demo_getUser(3)
      demo_once_deliveries demo_deliveries_entries b t r] a t r demo_getUser(3)
  show ?thesis by simp
qed

text \<open>C7: when the identity lookup fails for the requested driver id, the handler of
  GET /driver-details makes no other adapter call: it reads neither the deliveries
  collection nor the ticket or rating partition.\<close>

theorem C7_absent_identity_no_store_reads:
  assumes "map_of (query req) ''uid'' = Some uid"
    and "getUser w uid = Inl err"
    and "app w GET_driver_details req = Some (r, calls)"
  shows "set calls \<subseteq> {CallGetUser uid} \<and> (\<forall>path. CallOnce path \<notin> set calls)"
proof -
  have "set (snd (driver_details w req)) \<subseteq> {CallGetUser uid}"
    using assms(1,2) by (simp add: driver_details_def driver_details_try_absent)
  moreover have "calls = [] \<or> calls = snd (driver_details w req)"
    using assms(3) by (auto simp: app_def split: option.splits)
  ultimately show ?thesis by auto
qed

theorem C7_absent_identity_no_store_reads_witness:
  "map_of (query (demo_request ''ghost'')) ''uid'' = Some ''ghost''
   \<and> getUser demo_env ''ghost'' = Inl not_found
   \<and> app demo_env GET_driver_details (demo_request ''ghost'')
       = Some (Response 500 (ErrorBody ''Failed to load driver details'' (Some (message not_found))),
               [CallGetUser ''ghost''])
   \<and> set [CallGetUser ''ghost''] \<subseteq> {CallGetUser ''ghost''}
   \<and> (\<forall>path. CallOnce path \<notin> set [CallGetUser ''ghost''])"
  using C7_absent_identity_no_store_reads [OF demo_query_uid demo_ghost_absent demo_ghost_details]
    demo_query_uid demo_ghost_absent demo_ghost_details
  by simp

text \<open>C8: when the adapter's pages, requested 1000 at a time with each response's
  token passed to the next request, end with a response that carries no token, GET
  /drivers answers 200 with the records of all the pages, in order. On an adapter that
  serves pages of 1000, 1000 and 37 distinct records the handler makes three requests
  and lists 2037 entries without a duplicate.\<close>

theorem C8_listing_concatenates_pages:
  "(page_chain w None pages \<longrightarrow>
      map_option fst (get_drivers w)
        = Some (Response 200 (UsersBody (concat (map (map list_item) pages)))))
   \<and> map length demo_pages = [1000, 1000, 37]
   \<and> page_chain demo_env None demo_pages
   \<and> (\<exists>users. get_drivers demo_env
          = Some (Response 200 (UsersBody users),
                  [CallListUsers 1000 None, CallListUsers 1000 (page_token (Suc 0)),
                   CallListUsers 1000 (page_token (Suc (Suc 0)))])
        \<and> users = concat (map (map list_item) demo_pages)
        \<and> length users = 2037 \<and> distinct users)"
proof -
  have gen: "page_chain w None pages \<longrightarrow>
      map_option fst (get_drivers w)
        = Some (Response 200 (UsersBody (concat (map (map list_item) pages))))"
    by (simp add: get_drivers_chain)
  from demo_listing demo_loop_calls
  have "\<exists>users. get_drivers demo_env
          = Some (Response 200 (UsersBody users),
                  [CallListUsers 1000 None, CallListUsers 1000 (page_token (Suc 0)),
                   CallListUsers 1000 (page_token (Suc (Suc 0)))])
        \<and> users = concat (map (map list_item) demo_pages)
        \<and> length users = 2037 \<and> distinct users"
    by auto
  with gen demo_page_sizes demo_chain show ?thesis by blast
qed

theorem C8_listing_concatenates_pages_witness:
  "page_chain demo_env None demo_pages
   \<and> map_option fst (get_drivers demo_env)
       = Some (Response 200 (UsersBody (concat (map (map list_item) demo_pages))))"
  using C8_listing_concatenates_pages [of demo_env demo_pages] by simp

text \<open>C9 as stated fails: a request that presents the admin key in the second header
  is answered 401 when the first header carries another value.\<close>

theorem C9_correct_secret_behind_wrong_header_rejected:
  "map_of (headers cross_key_request) ''x-admin-key'' = Some (ADMIN_API_KEY demo_env)
   \<and> app demo_env GET_driver_details cross_key_request
        = Some (Response 401 (ErrorBody ''Unauthorized'' None), [])"
  by (simp add: app_def requireAdminKey_def cross_key_request_def demo_env_def str_or_def
      str_truthy_def)

text \<open>C9, amended: on every authenticated endpoint a request is answered 401 if and
  only if the secret it presents, which is the first non-empty value among the header
  \<open>x-admin-api-key\<close>, the header \<open>x-admin-key\<close> and the query parameter \<open>key\<close>,
  is absent or differs from the configured admin key. A request that carries the admin
  key in one of the three is admitted when the ones before it are absent or empty.\<close>

theorem C9_rejected_iff_first_presented_key_wrong:
  assumes "ep \<noteq> GET_root" and "ADMIN_API_KEY w \<noteq> []"
  shows "((\<exists>b calls. app w ep req = Some (Response 401 b, calls))
            \<longleftrightarrow> presented_key req \<noteq> Some (ADMIN_API_KEY w))
       \<and> (requireAdminKey w req = None \<longleftrightarrow> presented_key req = Some (ADMIN_API_KEY w))
       \<and> (map_of (headers req) ''x-admin-api-key'' = Some (ADMIN_API_KEY w)
            \<longrightarrow> requireAdminKey w req = None)
       \<and> (\<not> str_truthy (map_of (headers req) ''x-admin-api-key'')
            \<and> map_of (headers req) ''x-admin-key'' = Some (ADMIN_API_KEY w)
            \<longrightarrow> requireAdminKey w req = None)
       \<and> (\<not> str_truthy (map_of (headers req) ''x-admin-api-key'')
            \<and> \<not> str_truthy (map_of (headers req) ''x-admin-key'')
            \<and> map_of (query req) ''key'' = Some (ADMIN_API_KEY w)
            \<longrightarrow> requireAdminKey w req = None)"
proof -
  have gate: "requireAdminKey w req = None \<longleftrightarrow> presented_key req = Some (ADMIN_API_KEY w)"
    by (rule requireAdminKey_presented)
  have rej: "(\<exists>b calls. app w ep req = Some (Response 401 b, calls))
            \<longleftrightarrow> presented_key req \<noteq> Some (ADMIN_API_KEY w)"
  proof (cases "requireAdminKey w req")
    case None
    with assms(1) gate show ?thesis
      by (cases ep)
         (simp_all add: app_def get_drivers_not_401 delete_driver_not_401 driver_details_not_401)
  next
    case (Some r)
    then have "r = Response 401 (ErrorBody ''Unauthorized'' None)"
      by (rule requireAdminKey_Some)
    with assms(1) Some gate show ?thesis
      by (cases ep) (simp_all add: app_def)
  qed
  have chan: "(map_of (headers req) ''x-admin-api-key'' = Some (ADMIN_API_KEY w)
            \<longrightarrow> requireAdminKey w req = None)
       \<and> (\<not> str_truthy (map_of (headers req) ''x-admin-api-key'')
            \<and> map_of (headers req) ''x-admin-key'' = Some (ADMIN_API_KEY w)
            \<longrightarrow> requireAdminKey w req = None)
       \<and> (\<not> str_truthy (map_of (headers req) ''x-admin-api-key'')
            \<and> \<not> str_truthy (map_of (headers req) ''x-admin-key'')
            \<and> map_of (query req) ''key'' = Some (ADMIN_API_KEY w)
            \<longrightarrow> requireAdminKey w req = None)"
    using assms(2)
    by (auto simp: requireAdminKey_def Let_def str_or_def str_truthy_def split: option.splits)
  from rej gate chan show ?thesis by blast
qed

theorem C9_rejected_iff_first_presented_key_wrong_witness:
  "GET_driver_details \<noteq> GET_root
   \<and> ADMIN_API_KEY demo_env = ''secret''
   \<and> presented_key (demo_request ''drv1'') = Some ''secret''
   \<and> requireAdminKey demo_env (demo_request ''drv1'') = None
   \<and> presented_key cross_key_request = Some ''wrong''
   \<and> (\<exists>b calls. app demo_env GET_driver_details cross_key_request = Some (Response 401 b, calls))
   \<and> (\<nexists>b calls. app demo_env GET_driver_details (demo_request ''drv1'')
                    = Some (Response 401 b, calls))"
proof -
  have e: "GET_driver_details \<noteq> GET_root" by simp
  have k: "ADMIN_API_KEY demo_env = ''secret''" by (simp add: demo_env_def)
  then have n: "ADMIN_API_KEY demo_env \<noteq> []" by simp
  have p1: "presented_key (demo_request ''drv1'') = Some ''secret''"
    by (simp add: presented_key_def demo_request_def List.map_filter_simps)
  have p2: "presented_key cross_key_request = Some ''wrong''"
    by (simp add: presented_key_def cross_key_request_def List.map_filter_simps)
  from C9_rejected_iff_first_presented_key_wrong [OF e n, of "demo_request ''drv1''"]
    C9_rejected_iff_first_presented_key_wrong [OF e n, of cross_key_request]
    k p1 p2
  show ?thesis by simp
qed

text \<open>C10: when the driver's identity record has no email, the scan includes a
  delivery record exactly when its assigned driver id (\<open>details.assignedDriverUid\<close>)
  equals the driver id, whatever its assigned email is: absent, empty or any string.\<close>

theorem C10_no_email_matches_by_uid_only:
  assumes "\<not> str_truthy (u_email u)" and "uid \<noteq> []"
  shows "(delivery_ok obj \<longrightarrow>
            load_callback u uid id' obj loads
              = Inr (if delivery_field obj ''assignedDriverUid'' = JStr uid
                     then loads @ [load_of id' obj] else loads))
       \<and> (loads_forEach u uid es [] = Inr ls \<longrightarrow>
            map load_id ls
              = map fst (filter (\<lambda>e. delivery_field (snd e) ''assignedDriverUid'' = JStr uid) es))"
proof (intro conjI impI)
  assume "delivery_ok obj"
  then show "load_callback u uid id' obj loads
              = Inr (if delivery_field obj ''assignedDriverUid'' = JStr uid
                     then loads @ [load_of id' obj] else loads)"
    by (simp add: load_callback_ok code_matches_no_email [OF assms])
next
  assume l: "loads_forEach u uid es [] = Inr ls"
  from loads_forEach_ok [OF loads_forEach_Inr [OF l], of u uid "[]"] l
  show "map load_id ls
      = map fst (filter (\<lambda>e. delivery_field (snd e) ''assignedDriverUid'' = JStr uid) es)"
    by (simp add: code_matches_no_email [OF assms] load_of_def comp_def)
qed

theorem C10_no_email_matches_by_uid_only_witness:
  "u_email user_noemail = None
   \<and> delivery_field delivery_d6 ''assignedDriverEmail'' = JStr []
   \<and> load_callback user_noemail ''drv2'' ''d6'' delivery_d6 [] = Inr []
   \<and> delivery_field delivery_d3 ''assignedDriverEmail'' = JUndefined
   \<and> load_callback user_noemail ''drv2'' ''d3'' delivery_d3 [] = Inr []
   \<and> (\<exists>ls. loads_forEach user_noemail ''drv2'' demo_entries [] = Inr ls
          \<and> map load_id ls = [''d4''])"
proof -
  have a: "\<not> str_truthy (u_email user_noemail)" by (simp add: user_noemail_def str_truthy_def)
  have n: "''drv2'' \<noteq> []" by simp
  have ok: "\<forall>e \<in> set demo_entries. delivery_ok (snd e)"
    by (simp add: delivery_ok_def delivery_field_def demo_entries_def demo_delivery_defs)
  then have ok6: "delivery_ok delivery_d6" and ok3: "delivery_ok delivery_d3"
    by (simp_all add: demo_entries_def)
  from loads_forEach_ok [OF ok] obtain ls where
    ls: "loads_forEach user_noemail ''drv2'' demo_entries [] = Inr ls" by blast
  have f: "map fst (filter (\<lambda>e. delivery_field (snd e) ''assignedDriverUid'' = JStr ''drv2'')
             demo_entries) = [''d4'']"
    by (simp add: delivery_field_def demo_entries_def demo_delivery_defs)
  have f6: "delivery_field delivery_d6 ''assignedDriverEmail'' = JStr []
      \<and> delivery_field delivery_d6 ''assignedDriverUid'' \<noteq> JStr ''drv2''"
    by (simp add: delivery_field_def delivery_d6_def)
  have f3: "delivery_field delivery_d3 ''assignedDriverEmail'' = JUndefined
      \<and> delivery_field delivery_d3 ''assignedDriverUid'' \<noteq> JStr ''drv2''"
    by (simp add: delivery_field_def delivery_d3_def)
  from C10_no_email_matches_by_uid_only [OF a n, of delivery_d6 "''d6''" "[]" demo_entries ls]
    C10_no_email_matches_by_uid_only [OF a n, of delivery_d3 "''d3''" "[]" demo_entries ls]
    ok6 ok3 ls f f6 f3
  show ?thesis by (simp add: user_noemail_def)
qed

end
